theory Spec2Isabelle
  imports Complex_Main "HOL-Library.Word" "HOL-Library.AList" "HOL-Library.Multiset"
    "HOL-Library.Signed_Division"
begin

section \<open>Codec: binary payload to printable text and back\<close>

text \<open>
  A \<^verbatim>\<open>Uint8Array\<close> is a list of 8-bit words. A JavaScript string is modelled as a
  \<^typ>\<open>string\<close>: its characters are the code units 0..255, which is the whole range that
  \<^verbatim>\<open>String.fromCharCode(bytes[i])\<close> produces from a byte and the whole range
  \<^verbatim>\<open>btoa\<close> accepts, so the \<^verbatim>\<open>InvalidCharacterError\<close> branch of
  \<^verbatim>\<open>btoa\<close> has no input in this type.

  \<^verbatim>\<open>btoa\<close> and \<^verbatim>\<open>atob\<close> are browser built-ins; they are written out here as
  the HTML standard defines them (forgiving-base64 encode and decode).
\<close>

type_synonym bytes = "8 word list"

definition sextet_char :: "nat \<Rightarrow> char" where
  "sextet_char n =
     (if n < 26 then char_of (65 + n)
      else if n < 52 then char_of (71 + n)
      else if n < 62 then char_of (n - 4)
      else if n = 62 then CHR ''+''
      else CHR ''/'')"

definition sextet_of_char :: "char \<Rightarrow> nat option" where
  "sextet_of_char c =
     (let k = (of_char c :: nat) in
      if 65 \<le> k \<and> k \<le> 90 then Some (k - 65)
      else if 97 \<le> k \<and> k \<le> 122 then Some (k - 71)
      else if 48 \<le> k \<and> k \<le> 57 then Some (k + 4)
      else if c = CHR ''+'' then Some 62
      else if c = CHR ''/'' then Some 63
      else None)"

text \<open>Three bytes become four sextets; a tail of one or two bytes is padded with \<open>=\<close>.\<close>

fun base64_encode :: "nat list \<Rightarrow> string" where
  "base64_encode (a # b # c # rest) =
     [sextet_char (a div 4), sextet_char ((a mod 4) * 16 + b div 16),
      sextet_char ((b mod 16) * 4 + c div 64), sextet_char (c mod 64)] @ base64_encode rest"
| "base64_encode [a, b] =
     [sextet_char (a div 4), sextet_char ((a mod 4) * 16 + b div 16),
      sextet_char ((b mod 16) * 4), CHR ''='']"
| "base64_encode [a] =
     [sextet_char (a div 4), sextet_char ((a mod 4) * 16), CHR ''='', CHR ''='']"
| "base64_encode [] = []"

definition btoa :: "string \<Rightarrow> string" where
  "btoa s = base64_encode (map of_char s)"

definition ascii_whitespace :: "char \<Rightarrow> bool" where
  "ascii_whitespace c \<longleftrightarrow> (of_char c :: nat) \<in> {9, 10, 12, 13, 32}"

text \<open>Removal of one or two trailing \<open>=\<close>, written on the reversed text.\<close>

fun drop_padding_rev :: "string \<Rightarrow> string" where
  "drop_padding_rev (x # y # r) =
     (if x = CHR ''='' then (if y = CHR ''='' then r else y # r) else x # y # r)"
| "drop_padding_rev [x] = (if x = CHR ''='' then [] else [x])"
| "drop_padding_rev [] = []"

definition remove_padding :: "string \<Rightarrow> string" where
  "remove_padding d = rev (drop_padding_rev (rev d))"

text \<open>Four sextets become three bytes; the leftover bits of a tail of two or three
  sextets are discarded.\<close>

fun base64_decode :: "nat list \<Rightarrow> nat list" where
  "base64_decode (d0 # d1 # d2 # d3 # rest) =
     [d0 * 4 + d1 div 16, (d1 mod 16) * 16 + d2 div 4, (d2 mod 4) * 64 + d3]
       @ base64_decode rest"
| "base64_decode [d0, d1, d2] = [d0 * 4 + d1 div 16, (d1 mod 16) * 16 + d2 div 4]"
| "base64_decode [d0, d1] = [d0 * 4 + d1 div 16]"
| "base64_decode _ = []"

text \<open>\<open>None\<close> is the \<^verbatim>\<open>InvalidCharacterError\<close> that \<^verbatim>\<open>atob\<close> throws.\<close>

definition atob :: "string \<Rightarrow> string option" where
  "atob s =
     (let d = filter (\<lambda>c. \<not> ascii_whitespace c) s;
          d' = (if length d mod 4 = 0 then remove_padding d else d)
      in if length d' mod 4 = 1 then None
         else (case those (map sextet_of_char d') of
                 None \<Rightarrow> None
               | Some ds \<Rightarrow> Some (map char_of (base64_decode ds))))"

definition bytesToBase64 :: "bytes \<Rightarrow> string" where
  "bytesToBase64 bs = btoa (map (\<lambda>b. char_of (unat b)) bs)"

definition base64ToBytes :: "string \<Rightarrow> bytes option" where
  "base64ToBytes base64 =
     (case atob base64 of
        None \<Rightarrow> None
      | Some binary \<Rightarrow> Some (map (\<lambda>c. of_nat (of_char c)) binary))"

text \<open>The sextets and the amount of padding that \<^const>\<open>base64_encode\<close> writes, used to
  state the shape of its output.\<close>

fun sextets_of :: "nat list \<Rightarrow> nat list" where
  "sextets_of (a # b # c # rest) =
     [a div 4, (a mod 4) * 16 + b div 16, (b mod 16) * 4 + c div 64, c mod 64] @ sextets_of rest"
| "sextets_of [a, b] = [a div 4, (a mod 4) * 16 + b div 16, (b mod 16) * 4]"
| "sextets_of [a] = [a div 4, (a mod 4) * 16]"
| "sextets_of [] = []"

fun padding_of :: "nat list \<Rightarrow> nat" where
  "padding_of (a # b # c # rest) = padding_of rest"
| "padding_of [a, b] = 1"
| "padding_of [a] = 2"
| "padding_of [] = 0"

section \<open>Data model\<close>

text \<open>
  The signed network event. \<^verbatim>\<open>finalizeEvent\<close> takes the four fields of the template
  and adds the identity, the signer and the signature, so the event is the template's
  extension. The field \<^verbatim>\<open>id\<close> is called \<open>event_id\<close> here.
\<close>

record EventTemplate =
  kind :: int
  created_at :: int
  tags :: "string list list"
  content :: string

record NostrEvent = EventTemplate +
  event_id :: string
  pubkey :: string
  sig :: string

text \<open>The envelope carried in an event's content (\<^verbatim>\<open>type\<close> and \<^verbatim>\<open>docId\<close> are
  \<open>msg_type\<close> and \<open>msg_docId\<close>).\<close>

record SyncMessage =
  msg_type :: string
  msg_docId :: string
  data :: string
  timestamp :: int

record CursorPosition =
  anchor :: int
  head :: int

record Participant =
  participant_pubkey :: string
  name :: "string option"
  color :: string
  cursor :: "CursorPosition option"
  lastSeen :: int

text \<open>The content of a presence event, as \<^verbatim>\<open>handlePresence\<close> reads it.\<close>

record PresenceData =
  presence_name :: "string option"
  presence_cursor :: "CursorPosition option"
  presence_color :: "string option"

definition DOCUMENT_META :: int where "DOCUMENT_META = 30078"
definition DOCUMENT_SNAPSHOT :: int where "DOCUMENT_SNAPSHOT = 30079"
definition CRDT_UPDATE :: int where "CRDT_UPDATE = 21000"
definition PRESENCE :: int where "PRESENCE = 21001"
definition PING :: int where "PING = 21002"
definition PONG :: int where "PONG = 21003"

lemmas NOSTR_KINDS =
  DOCUMENT_META_def DOCUMENT_SNAPSHOT_def CRDT_UPDATE_def PRESENCE_def PING_def PONG_def

section \<open>The provider and what it calls\<close>

text \<open>
  Every call the provider makes into a collaborator is appended to a log, in the order
  the calls happen: a notification handed to \<^verbatim>\<open>emit\<close>, \<^verbatim>\<open>doc.import\<close>,
  \<^verbatim>\<open>pool.publish\<close>, \<^verbatim>\<open>pool.close\<close>, \<^verbatim>\<open>setTimeout\<close>, \<^verbatim>\<open>clearTimeout\<close>
  and \<^verbatim>\<open>console.error\<close>. The order of the log is the order of the calls.
\<close>

datatype ProviderEventType = Sync | Update | Connected | Disconnected | Error | Awareness

datatype emit_data =
    Relays "string list"
  | Status string bool
  | UpdateFrom string int
  | Failure string
  | Participants "Participant list"
  | Empty

datatype effect =
    Emit ProviderEventType emit_data
  | DocImport bytes
  | PoolPublish "string list" NostrEvent
  | PoolClose "string list"
  | SetTimeout nat nat
  | ClearTimeout nat
  | ConsoleError string

text \<open>
  The fields of the class, with the document as a value of an arbitrary type \<open>'d\<close> and
  its version markers of type \<open>'v\<close>. \<open>batchInterval\<close> is \<^verbatim>\<open>options.batchInterval\<close>.
  A timer handle is a number; \<open>None\<close> is \<^verbatim>\<open>null\<close>. Handles are truthy in
  JavaScript (non-zero numbers in a browser, objects in Node), so \<^verbatim>\<open>!this.batchTimer\<close>
  is \<open>batchTimer p = None\<close>. The last three fields are not fields of the class: the log
  of calls, the handles the host still holds armed, and the next fresh handle.
\<close>

record ('d, 'v) LoroNostrProvider =
  doc :: 'd
  relays :: "string list"
  docId :: string
  privateKey :: bytes
  publicKey :: string
  subscriptionId :: "string option"
  pendingUpdates :: "bytes list"
  batchTimer :: "nat option"
  isConnected :: bool
  lastSyncTimestamp :: int
  batchInterval :: nat
  awareness :: "(string \<times> Participant) list"
  lastExportedVersion :: "'v option"
  effects :: "effect list"
  timers :: "nat list"
  nextTimer :: nat

text \<open>
  The collaborators outside this repository, taken as parameters: the document engine
  (\<^verbatim>\<open>import\<close> returns \<open>None\<close> when it throws; \<^verbatim>\<open>export\<close> in mode
  \<^verbatim>\<open>update\<close> with or without \<^verbatim>\<open>from\<close>; \<^verbatim>\<open>version\<close>), \<^verbatim>\<open>JSON.parse\<close>
  at the two types the provider reads (\<open>None\<close> when it throws or the value has no such
  fields), \<^verbatim>\<open>JSON.stringify\<close> and \<^verbatim>\<open>finalizeEvent\<close>.
\<close>

record ('d, 'v) host =
  doc_import :: "'d \<Rightarrow> bytes \<Rightarrow> 'd option"
  doc_export :: "'d \<Rightarrow> 'v option \<Rightarrow> bytes"
  doc_version :: "'d \<Rightarrow> 'v"
  JSON_parse :: "string \<Rightarrow> SyncMessage option"
  JSON_parse_presence :: "string \<Rightarrow> PresenceData option"
  JSON_stringify :: "SyncMessage \<Rightarrow> string"
  finalizeEvent :: "EventTemplate \<Rightarrow> bytes \<Rightarrow> NostrEvent"

definition emit ::
  "ProviderEventType \<Rightarrow> emit_data \<Rightarrow> ('d, 'v) LoroNostrProvider \<Rightarrow> ('d, 'v) LoroNostrProvider"
  where
  "emit ev d p = p\<lparr>effects := effects p @ [Emit ev d]\<rparr>"

definition console_error ::
  "string \<Rightarrow> ('d, 'v) LoroNostrProvider \<Rightarrow> ('d, 'v) LoroNostrProvider" where
  "console_error msg p = p\<lparr>effects := effects p @ [ConsoleError msg]\<rparr>"

definition setTimeout ::
  "nat \<Rightarrow> ('d, 'v) LoroNostrProvider \<Rightarrow> nat \<times> ('d, 'v) LoroNostrProvider" where
  "setTimeout ms p =
     (nextTimer p,
      p\<lparr>timers := timers p @ [nextTimer p], nextTimer := Suc (nextTimer p),
        effects := effects p @ [SetTimeout (nextTimer p) ms]\<rparr>)"

definition clearTimeout ::
  "nat \<Rightarrow> ('d, 'v) LoroNostrProvider \<Rightarrow> ('d, 'v) LoroNostrProvider" where
  "clearTimeout t p =
     p\<lparr>timers := removeAll t (timers p), effects := effects p @ [ClearTimeout t]\<rparr>"

subsection \<open>Utility functions\<close>

text \<open>
  \<^verbatim>\<open>hash << 5\<close> converts to a signed 32-bit integer and shifts within 32 bits; the
  subtraction and the addition around it are on numbers and do not wrap. \<^verbatim>\<open>%\<close> is the
  truncated remainder \<open>smod\<close>.
\<close>

definition toInt32 :: "int \<Rightarrow> int" where
  "toInt32 x = (x + 2 ^ 31) mod 2 ^ 32 - 2 ^ 31"

fun color_hash :: "int \<Rightarrow> string \<Rightarrow> int" where
  "color_hash hash [] = hash"
| "color_hash hash (c # cs) = color_hash (of_char c + (toInt32 (toInt32 hash * 32) - hash)) cs"

text \<open>The decimal text of a number, as a template literal writes it.\<close>

definition decimal_digit :: "nat \<Rightarrow> char" where
  "decimal_digit d = char_of (48 + d)"

function decimal_text :: "nat \<Rightarrow> string" where
  "decimal_text n =
     (if 10 \<le> n then decimal_text (n div 10) @ [decimal_digit (n mod 10)]
      else [decimal_digit n])"
  by pat_completeness auto
termination
  by (relation "measure id") auto

declare decimal_text.simps [simp del]

definition generateColor :: "string \<Rightarrow> string" where
  "generateColor seed =
     (let hash = color_hash 0 seed;
          hue = nat \<bar>hash smod 360\<bar>
      in ''hsl('' @ decimal_text hue @ '', 70%, 50%)'')"

subsection \<open>Inbound events\<close>

text \<open>
  \<^verbatim>\<open>applyUpdate\<close> and \<^verbatim>\<open>applySnapshot\<close> contain no \<^verbatim>\<open>await\<close>, so each
  runs to its end when it is called. The change notification that the document sends
  for an import has the origin \<^verbatim>\<open>import\<close>, which the document listener ignores.
\<close>

definition applyUpdate ::
  "('d, 'v) host \<Rightarrow> NostrEvent \<Rightarrow> ('d, 'v) LoroNostrProvider \<Rightarrow> ('d, 'v) LoroNostrProvider"
  where
  "applyUpdate h event p =
     (case JSON_parse h (content event) of
        None \<Rightarrow> console_error ''Failed to apply update:'' p
      | Some message \<Rightarrow>
          (case base64ToBytes (data message) of
             None \<Rightarrow> console_error ''Failed to apply update:'' p
           | Some bs \<Rightarrow>
               (let p1 = p\<lparr>effects := effects p @ [DocImport bs]\<rparr> in
                case doc_import h (doc p) bs of
                  None \<Rightarrow> console_error ''Failed to apply update:'' p1
                | Some d \<Rightarrow>
                    emit Update (UpdateFrom (pubkey event) (created_at event))
                      (p1\<lparr>doc := d,
                         lastSyncTimestamp := max (lastSyncTimestamp p) (created_at event)\<rparr>))))"

definition applySnapshot ::
  "('d, 'v) host \<Rightarrow> NostrEvent \<Rightarrow> ('d, 'v) LoroNostrProvider \<Rightarrow> ('d, 'v) LoroNostrProvider"
  where
  "applySnapshot h event p =
     (case JSON_parse h (content event) of
        None \<Rightarrow> console_error ''Failed to apply snapshot:'' p
      | Some message \<Rightarrow>
          (case base64ToBytes (data message) of
             None \<Rightarrow> console_error ''Failed to apply snapshot:'' p
           | Some bs \<Rightarrow>
               (let p1 = p\<lparr>effects := effects p @ [DocImport bs]\<rparr> in
                case doc_import h (doc p) bs of
                  None \<Rightarrow> console_error ''Failed to apply snapshot:'' p1
                | Some d \<Rightarrow>
                    emit Sync (Status ''synced'' True)
                      (p1\<lparr>doc := d,
                         lastSyncTimestamp := max (lastSyncTimestamp p) (created_at event)\<rparr>))))"

text \<open>\<^verbatim>\<open>data.color || generateColor(event.pubkey)\<close>: a missing or empty colour is
  replaced. \<^verbatim>\<open>Map.set\<close> keeps the position of a key that is already there and appends
  a new one, as \<^const>\<open>AList.update\<close> does.\<close>

definition handlePresence ::
  "('d, 'v) host \<Rightarrow> NostrEvent \<Rightarrow> ('d, 'v) LoroNostrProvider \<Rightarrow> ('d, 'v) LoroNostrProvider"
  where
  "handlePresence h event p =
     (case JSON_parse_presence h (content event) of
        None \<Rightarrow> console_error ''Failed to handle presence:'' p
      | Some d \<Rightarrow>
          (let participant =
                 \<lparr>participant_pubkey = pubkey event,
                  name = presence_name d,
                  color = (case presence_color d of
                             None \<Rightarrow> generateColor (pubkey event)
                           | Some c \<Rightarrow> if c = [] then generateColor (pubkey event) else c),
                  cursor = presence_cursor d,
                  lastSeen = created_at event\<rparr>;
               p1 = p\<lparr>awareness := AList.update (pubkey event) participant (awareness p)\<rparr>
           in emit Awareness (Participants (map snd (awareness p1))) p1))"

definition handleEvent ::
  "('d, 'v) host \<Rightarrow> NostrEvent \<Rightarrow> ('d, 'v) LoroNostrProvider \<Rightarrow> ('d, 'v) LoroNostrProvider"
  where
  "handleEvent h event p =
     (if pubkey event = publicKey p then p
      else if kind event = CRDT_UPDATE then applyUpdate h event p
      else if kind event = DOCUMENT_SNAPSHOT then applySnapshot h event p
      else if kind event = PRESENCE then handlePresence h event p
      else p)"

text \<open>
  \<^verbatim>\<open>fetchHistory\<close>, given what the two \<^verbatim>\<open>querySync\<close> calls return (\<open>None\<close> when
  the call throws; the second query is not made when the first throws).
  \<^verbatim>\<open>Array.prototype.sort\<close> is stable, as \<^const>\<open>sort_key\<close> is.
\<close>

definition fetchHistory ::
  "('d, 'v) host \<Rightarrow> NostrEvent list option \<Rightarrow> NostrEvent list option \<Rightarrow>
     ('d, 'v) LoroNostrProvider \<Rightarrow> ('d, 'v) LoroNostrProvider" where
  "fetchHistory h snapshotQuery updateQuery p =
     (let p0 = emit Sync (Status ''syncing'' False) p in
      case snapshotQuery of
        None \<Rightarrow> emit Error (Failure ''Failed to fetch history'') p0
      | Some snapshotEvents \<Rightarrow>
          (case updateQuery of
             None \<Rightarrow> emit Error (Failure ''Failed to fetch history'') p0
           | Some updateEvents \<Rightarrow>
               (let events = sort_key created_at (snapshotEvents @ updateEvents);
                    p1 = (case find (\<lambda>e. kind e = DOCUMENT_SNAPSHOT) events of
                            Some snapshot \<Rightarrow> applySnapshot h snapshot p0
                          | None \<Rightarrow> p0);
                    p2 = fold (\<lambda>event q.
                                 if kind event = CRDT_UPDATE then applyUpdate h event q else q)
                           events p1
                in emit Sync (Status ''synced'' False) p2)))"

subsection \<open>Outbound updates\<close>

definition queueUpdate ::
  "bytes \<Rightarrow> ('d, 'v) LoroNostrProvider \<Rightarrow> ('d, 'v) LoroNostrProvider" where
  "queueUpdate update p =
     (let p1 = p\<lparr>pendingUpdates := pendingUpdates p @ [update]\<rparr> in
      case batchTimer p1 of
        None \<Rightarrow> (let (t, p2) = setTimeout (batchInterval p1) p1 in p2\<lparr>batchTimer := Some t\<rparr>)
      | Some t \<Rightarrow> p1)"

text \<open>The callback registered with \<^verbatim>\<open>doc.subscribe\<close>, given the origin of the change.\<close>

datatype EventBy = Local | Import | Checkout

definition documentListener ::
  "('d, 'v) host \<Rightarrow> EventBy \<Rightarrow> ('d, 'v) LoroNostrProvider \<Rightarrow> ('d, 'v) LoroNostrProvider"
  where
  "documentListener h by p =
     (if by \<noteq> Import then
        (let update = doc_export h (doc p) None in
         if length update > 0 then queueUpdate update p else p)
      else p)"

text \<open>
  \<^verbatim>\<open>publishUpdate\<close> runs up to its \<^verbatim>\<open>await\<close> when it is called
  (\<open>publishUpdate_begin\<close>: the event is built and handed to \<^verbatim>\<open>pool.publish\<close>) and
  continues when every relay has settled (\<open>publishUpdate_settled\<close>, given the list of
  outcomes, \<open>True\<close> for \<^verbatim>\<open>fulfilled\<close>). \<open>now\<close> is \<^verbatim>\<open>Date.now()\<close>, which the
  source reads twice in the same synchronous run; one value stands for both readings.
\<close>

definition publishUpdate_begin ::
  "('d, 'v) host \<Rightarrow> int \<Rightarrow> bytes \<Rightarrow> ('d, 'v) LoroNostrProvider \<Rightarrow> ('d, 'v) LoroNostrProvider"
  where
  "publishUpdate_begin h now update p =
     (let message =
            \<lparr>msg_type = ''update'', msg_docId = docId p, data = bytesToBase64 update,
             timestamp = now\<rparr>;
          event =
            finalizeEvent h
              \<lparr>kind = CRDT_UPDATE, created_at = now div 1000, tags = [[''d'', docId p]],
               content = JSON_stringify h message\<rparr>
              (privateKey p)
      in p\<lparr>effects := effects p @ [PoolPublish (relays p) event]\<rparr>)"

definition publishUpdate_settled ::
  "bool list \<Rightarrow> ('d, 'v) LoroNostrProvider \<Rightarrow> ('d, 'v) LoroNostrProvider" where
  "publishUpdate_settled results p =
     (if \<not> list_ex (\<lambda>r. r) results
      then emit Error (Failure ''Failed to publish update'') p
      else p)"

definition publishUpdate ::
  "('d, 'v) host \<Rightarrow> int \<Rightarrow> bool list \<Rightarrow> bytes \<Rightarrow> ('d, 'v) LoroNostrProvider \<Rightarrow>
     ('d, 'v) LoroNostrProvider" where
  "publishUpdate h now results update p =
     publishUpdate_settled results (publishUpdate_begin h now update p)"

text \<open>
  \<^verbatim>\<open>flushUpdates\<close> up to its \<^verbatim>\<open>await\<close>; the flag says whether a publish is in
  flight. \<^verbatim>\<open>flushUpdates\<close> itself is the whole call, awaited.
\<close>

definition flushUpdates_begin ::
  "('d, 'v) host \<Rightarrow> int \<Rightarrow> ('d, 'v) LoroNostrProvider \<Rightarrow> ('d, 'v) LoroNostrProvider \<times> bool"
  where
  "flushUpdates_begin h now p =
     (if length (pendingUpdates p) = 0 then (p, False)
      else
        (let p1 = p\<lparr>batchTimer := None\<rparr>;
             update = (case lastExportedVersion p1 of
                         Some v \<Rightarrow> doc_export h (doc p1) (Some v)
                       | None \<Rightarrow> doc_export h (doc p1) None);
             p2 = p1\<lparr>lastExportedVersion := Some (doc_version h (doc p1))\<rparr>;
             p3 = p2\<lparr>pendingUpdates := []\<rparr>
         in if length update > 0 then (publishUpdate_begin h now update p3, True)
            else (p3, False)))"

definition flushUpdates ::
  "('d, 'v) host \<Rightarrow> int \<Rightarrow> bool list \<Rightarrow> ('d, 'v) LoroNostrProvider \<Rightarrow>
     ('d, 'v) LoroNostrProvider" where
  "flushUpdates h now results p =
     (let (p1, in_flight) = flushUpdates_begin h now p in
      if in_flight then publishUpdate_settled results p1 else p1)"

text \<open>The host runs the callback of an armed timer once, when it expires.\<close>

definition timer_expires ::
  "('d, 'v) host \<Rightarrow> int \<Rightarrow> bool list \<Rightarrow> nat \<Rightarrow> ('d, 'v) LoroNostrProvider \<Rightarrow>
     ('d, 'v) LoroNostrProvider" where
  "timer_expires h now results t p =
     (if t \<in> set (timers p)
      then flushUpdates h now results (p\<lparr>timers := removeAll t (timers p)\<rparr>)
      else p)"

subsection \<open>Lifecycle\<close>

text \<open>
  \<^verbatim>\<open>disconnect\<close> is synchronous: it calls \<^verbatim>\<open>flushUpdates\<close> without awaiting it, so
  the flush runs up to its \<^verbatim>\<open>await\<close> and \<^verbatim>\<open>disconnect\<close> goes on. The flag says
  whether a publish is still in flight when it returns. \<^verbatim>\<open>if (this.subscriptionId)\<close>
  is false for \<^verbatim>\<open>null\<close> and for the empty string.
\<close>

definition disconnect ::
  "('d, 'v) host \<Rightarrow> int \<Rightarrow> ('d, 'v) LoroNostrProvider \<Rightarrow> ('d, 'v) LoroNostrProvider \<times> bool"
  where
  "disconnect h now p =
     (let p1 = (if subscriptionId p \<noteq> None \<and> subscriptionId p \<noteq> Some []
                then p\<lparr>effects := effects p @ [PoolClose (relays p)], subscriptionId := None\<rparr>
                else p);
          p2 = (case batchTimer p1 of
                  Some t \<Rightarrow> (clearTimeout t p1)\<lparr>batchTimer := None\<rparr>
                | None \<Rightarrow> p1);
          (p3, in_flight) = (if length (pendingUpdates p2) > 0 then flushUpdates_begin h now p2
                             else (p2, False));
          p4 = p3\<lparr>isConnected := False\<rparr>
      in (emit Disconnected Empty p4, in_flight))"

definition getAwareness :: "('d, 'v) LoroNostrProvider \<Rightarrow> Participant list" where
  "getAwareness p = map snd (awareness p)"

section \<open>The key store\<close>

text \<open>
  The state of the store that holds the Nostr keys (the fields \<^verbatim>\<open>relays\<close> and
  \<^verbatim>\<open>isConnected\<close> are \<open>store_relays\<close> and \<open>store_isConnected\<close>; the fields of the
  key pair are \<open>keys_publicKey\<close> and \<open>keys_privateKey\<close>).
\<close>

record NostrKeys =
  keys_publicKey :: string
  keys_privateKey :: string

datatype RelayStatus = connecting | connected | disconnected | error

record NostrRelay =
  url :: string
  status :: RelayStatus

record NostrState =
  keys :: "NostrKeys option"
  store_relays :: "NostrRelay list"
  store_isConnected :: bool
  userName :: string

text \<open>
  The two functions of the key library that \<^verbatim>\<open>importKeys\<close> calls, taken as
  parameters: \<^verbatim>\<open>nip19.decode\<close> (\<open>None\<close> when it throws) gives a type and, for the type
  \<open>nsec\<close>, the key bytes; \<^verbatim>\<open>getPublicKey\<close> (\<open>None\<close> when it throws) derives the
  public key from key bytes it accepts.
\<close>

record DecodeResult =
  decoded_type :: string
  decoded_data :: bytes

record key_library =
  nip19_decode :: "string \<Rightarrow> DecodeResult option"
  getPublicKey :: "bytes \<Rightarrow> string option"

text \<open>\<^verbatim>\<open>b.toString(16).padStart(2, '0')\<close>: two lower-case hexadecimal digits.\<close>

definition hex_digit :: "nat \<Rightarrow> char" where
  "hex_digit n = (if n < 10 then char_of (48 + n) else char_of (87 + n))"

definition byte_hex :: "8 word \<Rightarrow> string" where
  "byte_hex b = [hex_digit (unat b div 16), hex_digit (unat b mod 16)]"

text \<open>
  \<^verbatim>\<open>hexKey.match(/.{1,2}/g)\<close>: the successive matches of one or two characters, none of
  them a line terminator (the dot does not match one). An empty list is the \<^verbatim>\<open>null\<close>
  that \<^verbatim>\<open>match\<close> returns when nothing matches.
\<close>

definition line_terminator :: "char \<Rightarrow> bool" where
  "line_terminator c \<longleftrightarrow> (of_char c :: nat) \<in> {10, 13}"

fun match_pairs :: "string \<Rightarrow> string list" where
  "match_pairs [] = []"
| "match_pairs [c] = (if line_terminator c then [] else [[c]])"
| "match_pairs (c # d # cs) =
     (if line_terminator c then match_pairs (d # cs)
      else if line_terminator d then [c] # match_pairs cs
      else [c, d] # match_pairs cs)"

text \<open>
  \<^verbatim>\<open>parseInt(text, 16)\<close>: leading white space is skipped, a sign is read, a prefix
  \<^verbatim>\<open>0x\<close> or \<^verbatim>\<open>0X\<close> is dropped, and the longest run of hexadecimal digits is the
  value; \<open>None\<close> is \<^verbatim>\<open>NaN\<close>, the result when there is no digit.
\<close>

definition js_whitespace :: "char \<Rightarrow> bool" where
  "js_whitespace c \<longleftrightarrow> (of_char c :: nat) \<in> {9, 10, 11, 12, 13, 32, 160}"

definition hex_digit_value :: "char \<Rightarrow> int option" where
  "hex_digit_value c =
     (let k = (of_char c :: int) in
      if 48 \<le> k \<and> k \<le> 57 then Some (k - 48)
      else if 97 \<le> k \<and> k \<le> 102 then Some (k - 87)
      else if 65 \<le> k \<and> k \<le> 70 then Some (k - 55)
      else None)"

definition parseInt16 :: "string \<Rightarrow> int option" where
  "parseInt16 text =
     (let s = dropWhile js_whitespace text;
          sign = (if s \<noteq> [] \<and> hd s = CHR ''-'' then - 1 else 1 :: int);
          s1 = (if s \<noteq> [] \<and> (hd s = CHR ''+'' \<or> hd s = CHR ''-'') then tl s else s);
          s2 = (if take 2 s1 = ''0x'' \<or> take 2 s1 = ''0X'' then drop 2 s1 else s1);
          z = takeWhile (\<lambda>c. hex_digit_value c \<noteq> None) s2
      in if z = [] then None
         else Some (sign * foldl (\<lambda>acc c. acc * 16 + the (hex_digit_value c)) 0 z))"

text \<open>An element of the array given to \<^verbatim>\<open>new Uint8Array\<close>: \<^verbatim>\<open>NaN\<close> becomes 0, a
  number is taken modulo 256.\<close>

definition toUint8 :: "int option \<Rightarrow> 8 word" where
  "toUint8 v = (case v of None \<Rightarrow> 0 | Some k \<Rightarrow> of_int k)"

text \<open>
  The body of the \<^verbatim>\<open>try\<close> block of \<^verbatim>\<open>importKeys\<close>, in its three steps; each is
  \<open>None\<close> when it throws. \<open>hexKey_of\<close> is the value of \<^verbatim>\<open>hexKey\<close>,
  \<open>privateKeyBytes\<close> the array of that name (the \<^verbatim>\<open>map\<close> on the \<^verbatim>\<open>null\<close> of a
  failed match throws a \<^verbatim>\<open>TypeError\<close>), \<open>importKeys_try\<close> the argument of
  \<^verbatim>\<open>set\<close>, which is the last statement of the block.
\<close>

definition hexKey_of :: "key_library \<Rightarrow> string \<Rightarrow> string option" where
  "hexKey_of lib key =
     (if take 4 key = ''nsec'' then
        (case nip19_decode lib key of
           None \<Rightarrow> None
         | Some decoded \<Rightarrow>
             if decoded_type decoded = ''nsec''
             then Some (concat (map byte_hex (decoded_data decoded)))
             else Some key)
      else Some key)"

definition privateKeyBytes :: "string \<Rightarrow> bytes option" where
  "privateKeyBytes hexKey =
     (case match_pairs hexKey of
        [] \<Rightarrow> None
      | chunks \<Rightarrow> Some (map (\<lambda>byte. toUint8 (parseInt16 byte)) chunks))"

definition importKeys_try :: "key_library \<Rightarrow> string \<Rightarrow> NostrKeys option" where
  "importKeys_try lib key =
     (case hexKey_of lib key of
        None \<Rightarrow> None
      | Some hexKey \<Rightarrow>
          (case privateKeyBytes hexKey of
             None \<Rightarrow> None
           | Some bs \<Rightarrow>
               (case getPublicKey lib bs of
                  None \<Rightarrow> None
                | Some pk \<Rightarrow> Some \<lparr>keys_publicKey = pk, keys_privateKey = hexKey\<rparr>)))"

text \<open>
  \<^verbatim>\<open>importKeys\<close>, whose argument \<^verbatim>\<open>privateKey\<close> is called \<open>key\<close>: the message of the error thrown to the caller (\<open>None\<close> when the
  call returns) and the state of the store afterwards.
\<close>

definition importKeys :: "key_library \<Rightarrow> string \<Rightarrow> NostrState \<Rightarrow> string option \<times> NostrState"
  where
  "importKeys lib key s =
     (case importKeys_try lib key of
        Some ks \<Rightarrow> (None, s\<lparr>keys := Some ks\<rparr>)
      | None \<Rightarrow> (Some ''Invalid private key format'', s))"

definition clearKeys :: "NostrState \<Rightarrow> NostrState" where
  "clearKeys s = s\<lparr>keys := None\<rparr>"

section \<open>The latency probe\<close>

text \<open>The two declarations of types/index.ts that describe latency samples and metrics
  (\<^verbatim>\<open>id\<close> is \<open>measurement_id\<close>; \<open>None\<close> for \<open>minLatency\<close> is \<^verbatim>\<open>Infinity\<close>, the
  value the debug panel tests for before showing a minimum).\<close>

record LatencyMeasurement =
  measurement_id :: string
  sentAt :: int
  receivedAt :: "int option"
  latency :: "int option"
  relay :: "string option"

record SyncMetrics =
  lastLatency :: int
  avgLatency :: real
  minLatency :: "int option"
  maxLatency :: int
  measurements :: "LatencyMeasurement list"
  messagesSent :: nat
  messagesReceived :: nat
  bytesSent :: nat
  bytesReceived :: nat
  lastSyncAt :: int
  connectedRelays :: nat
  totalRelays :: nat

text \<open>
  Modelled from the spec: the state of the latency probe. The debug panel calls
  \<^verbatim>\<open>provider.ping()\<close>, \<^verbatim>\<open>provider.getMetrics()\<close> and
  \<^verbatim>\<open>provider.resetMetrics()\<close>, and listens for \<open>pong\<close> and \<open>metrics\<close>, but the
  provider source has none of them. The state is the metrics, a counter that names the
  probes, and the log of calls made for the probe.
\<close>

record ProbeState =
  metrics :: SyncMetrics
  pingCounter :: nat
  probe_effects :: "effect list"

text \<open>Modelled from the spec: the metrics before any probe and after a reset.\<close>

definition initialMetrics :: SyncMetrics where
  "initialMetrics =
     \<lparr>lastLatency = 0, avgLatency = 0, minLatency = None, maxLatency = 0, measurements = [],
      messagesSent = 0, messagesReceived = 0, bytesSent = 0, bytesReceived = 0,
      lastSyncAt = 0, connectedRelays = 0, totalRelays = 0\<rparr>"

text \<open>Modelled from the spec: the bounded sample history keeps the newest \<open>capacity\<close>
  samples, the newest last.\<close>

definition keep_last :: "nat \<Rightarrow> 'a list \<Rightarrow> 'a list" where
  "keep_last capacity xs = drop (length xs - capacity) xs"

text \<open>
  Modelled from the spec: \<^verbatim>\<open>ping()\<close> publishes a uniquely-identified probe envelope
  and records a pending measurement. The identifier is the decimal text of the counter;
  the envelope is an event of kind \<open>PING\<close> whose content is the identifier; the pending
  measurement has the time of sending and no latency yet. \<open>capacity\<close> is the bound of
  the sample history, which the spec leaves open.
\<close>

definition ping ::
  "nat \<Rightarrow> ('d, 'v) host \<Rightarrow> ('d, 'v) LoroNostrProvider \<Rightarrow> int \<Rightarrow> ProbeState \<Rightarrow> ProbeState"
  where
  "ping capacity h p now st =
     (let pid = decimal_text (pingCounter st);
          event =
            finalizeEvent h
              \<lparr>kind = PING, created_at = now div 1000, tags = [[''d'', docId p]],
               content = pid\<rparr>
              (privateKey p);
          pending =
            \<lparr>measurement_id = pid, sentAt = now, receivedAt = None, latency = None,
             relay = None\<rparr>;
          m = metrics st
      in st\<lparr>metrics := m\<lparr>measurements := keep_last capacity (measurements m @ [pending])\<rparr>,
            pingCounter := Suc (pingCounter st),
            probe_effects := probe_effects st @ [PoolPublish (relays p) event]\<rparr>)"

text \<open>Modelled from the spec: the running minimum, maximum and average over the
  latencies of the samples of the history that have one.\<close>

definition latencies :: "LatencyMeasurement list \<Rightarrow> int list" where
  "latencies ms = List.map_filter latency ms"

definition minimum :: "int list \<Rightarrow> int option" where
  "minimum ls = (case ls of [] \<Rightarrow> None | x # xs \<Rightarrow> Some (fold min xs x))"

definition maximum :: "int list \<Rightarrow> int" where
  "maximum ls = (case ls of [] \<Rightarrow> 0 | x # xs \<Rightarrow> fold max xs x)"

definition average :: "int list \<Rightarrow> real" where
  "average ls = (if ls = [] then 0 else real_of_int (sum_list ls) / real (length ls))"

text \<open>
  Modelled from the spec: a matching \<open>pong\<close> completes the measurement by computing the
  elapsed time and updates the minimum, maximum and average. A measurement matches when
  it has the identifier and is still pending; an identifier that matches nothing (the
  measurement was answered already, or has left the history) changes nothing and fails
  nothing.
\<close>

definition completeMeasurement :: "string \<Rightarrow> int \<Rightarrow> ProbeState \<Rightarrow> ProbeState" where
  "completeMeasurement pid now st =
     (let m = metrics st in
      case find (\<lambda>x. measurement_id x = pid \<and> latency x = None) (measurements m) of
        None \<Rightarrow> st
      | Some found \<Rightarrow>
          (let elapsed = now - sentAt found;
               ms = map (\<lambda>x. if measurement_id x = pid \<and> latency x = None
                              then x\<lparr>receivedAt := Some now, latency := Some (now - sentAt x)\<rparr>
                              else x)
                      (measurements m)
           in st\<lparr>metrics :=
                   m\<lparr>measurements := ms, lastLatency := elapsed,
                     minLatency := minimum (latencies ms),
                     maxLatency := maximum (latencies ms),
                     avgLatency := average (latencies ms)\<rparr>\<rparr>))"

text \<open>
  Modelled from the spec: the measurement is completed by a \<open>pong\<close> response or by the
  prober's own ping echoed back to it; the content of either is the identifier. Any
  other event is not for the probe.
\<close>

definition observeProbe :: "string \<Rightarrow> NostrEvent \<Rightarrow> int \<Rightarrow> ProbeState \<Rightarrow> ProbeState" where
  "observeProbe own event now st =
     (if kind event = PONG \<or> (kind event = PING \<and> pubkey event = own)
      then completeMeasurement (content event) now st
      else st)"

text \<open>Modelled from the spec: every sample of the history was named by \<^const>\<open>ping\<close>,
  so its identifier is the text of a counter value already used.\<close>

definition probe_ids_used :: "ProbeState \<Rightarrow> bool" where
  "probe_ids_used st \<longleftrightarrow>
     (\<forall>x \<in> set (measurements (metrics st)).
        \<exists>k < pingCounter st. measurement_id x = decimal_text k)"

text \<open>The number that a decimal text denotes, used to tell identifiers apart.\<close>

definition decimal_value :: "string \<Rightarrow> nat" where
  "decimal_value s = foldl (\<lambda>acc c. acc * 10 + (of_char c - 48)) 0 s"

section \<open>Reading the log\<close>

text \<open>The payloads handed to \<^verbatim>\<open>doc.import\<close>, the events handed to
  \<^verbatim>\<open>pool.publish\<close>, the notifications of one type, and the timers set, each in the
  order of the calls.\<close>

fun imports_of :: "effect list \<Rightarrow> bytes list" where
  "imports_of [] = []"
| "imports_of (DocImport bs # es) = bs # imports_of es"
| "imports_of (_ # es) = imports_of es"

fun publishes_of :: "effect list \<Rightarrow> NostrEvent list" where
  "publishes_of [] = []"
| "publishes_of (PoolPublish rs ev # es) = ev # publishes_of es"
| "publishes_of (_ # es) = publishes_of es"

fun emitted :: "ProviderEventType \<Rightarrow> effect list \<Rightarrow> emit_data list" where
  "emitted ty [] = []"
| "emitted ty (Emit ty' d # es) = (if ty' = ty then d # emitted ty es else emitted ty es)"
| "emitted ty (_ # es) = emitted ty es"

fun timeouts_set :: "effect list \<Rightarrow> nat list" where
  "timeouts_set [] = []"
| "timeouts_set (SetTimeout t ms # es) = t # timeouts_set es"
| "timeouts_set (_ # es) = timeouts_set es"

text \<open>The bytes that \<^const>\<open>applyUpdate\<close> and \<^const>\<open>applySnapshot\<close> hand to
  \<^verbatim>\<open>doc.import\<close> for an event: its content parsed, the \<^verbatim>\<open>data\<close> field decoded.
  \<open>None\<close> when either step throws.\<close>

definition payload_of :: "('d, 'v) host \<Rightarrow> NostrEvent \<Rightarrow> bytes option" where
  "payload_of h event =
     (case JSON_parse h (content event) of
        None \<Rightarrow> None
      | Some message \<Rightarrow> base64ToBytes (data message))"

section \<open>A small instance to run the functions on\<close>

text \<open>
  A document that is the list of the payloads imported into it, whose version is their
  number and whose update export is the concatenation of the payloads after a version.
  Contents are looked up in a fixed table of envelopes; the signer adds fixed fields.
\<close>

definition test_envelopes :: "(string \<times> SyncMessage) list" where
  "test_envelopes =
     [(''{snapshot room AAEC}'',
         \<lparr>msg_type = ''snapshot'', msg_docId = ''room'', data = ''AAEC'', timestamp = 100000\<rparr>),
      (''{update room AQ==}'',
         \<lparr>msg_type = ''update'', msg_docId = ''room'', data = ''AQ=='', timestamp = 90000\<rparr>),
      (''{update room AgM=}'',
         \<lparr>msg_type = ''update'', msg_docId = ''room'', data = ''AgM='', timestamp = 105000\<rparr>),
      (''{update room BAUG}'',
         \<lparr>msg_type = ''update'', msg_docId = ''room'', data = ''BAUG'', timestamp = 120000\<rparr>),
      (''{update elsewhere BwgJ}'',
         \<lparr>msg_type = ''update'', msg_docId = ''elsewhere'', data = ''BwgJ'', timestamp = 130000\<rparr>),
      (''{snapshot elsewhere Cgs=}'',
         \<lparr>msg_type = ''snapshot'', msg_docId = ''elsewhere'', data = ''Cgs='', timestamp = 130000\<rparr>)]"

definition test_host :: "(bytes list, nat) host" where
  "test_host =
     \<lparr>doc_import = (\<lambda>d bs. Some (d @ [bs])),
      doc_export = (\<lambda>d v. concat (drop (case v of None \<Rightarrow> 0 | Some n \<Rightarrow> n) d)),
      doc_version = length,
      JSON_parse = map_of test_envelopes,
      JSON_parse_presence = (\<lambda>s. None),
      JSON_stringify = (\<lambda>m. ''{'' @ msg_type m @ '' '' @ msg_docId m @ '' '' @ data m @ ''}''),
      finalizeEvent = (\<lambda>t sk.
        \<lparr>kind = kind t, created_at = created_at t, tags = tags t, content = content t,
         event_id = ''id'', pubkey = ''me'', sig = ''sig''\<rparr>)\<rparr>"

definition test_provider :: "(bytes list, nat) LoroNostrProvider" where
  "test_provider =
     \<lparr>doc = [], relays = [''wss://a'', ''wss://b''], docId = ''room'', privateKey = [1],
      publicKey = ''me'', subscriptionId = Some ''active'', pendingUpdates = [],
      batchTimer = None, isConnected = True, lastSyncTimestamp = 0, batchInterval = 100,
      awareness = [], lastExportedVersion = None, effects = [], timers = [], nextTimer = 1\<rparr>"

definition test_event :: "int \<Rightarrow> int \<Rightarrow> string \<Rightarrow> string \<Rightarrow> NostrEvent" where
  "test_event k t who c =
     \<lparr>kind = k, created_at = t, tags = [[''d'', ''room'']], content = c,
      event_id = c, pubkey = who, sig = ''sig''\<rparr>"

text \<open>
  A key library for concrete runs. It accepts the keys that the signature scheme accepts,
  32 bytes that are not all zero and, read as a big-endian number, lie below the group
  order; it names the public key after the first byte and decodes one \<open>nsec\<close> text.
\<close>

definition secp256k1_order :: bytes where
  "secp256k1_order =
     [255, 255, 255, 255, 255, 255, 255, 255, 255, 255, 255, 255, 255, 255, 255, 254,
      186, 174, 220, 230, 175, 72, 160, 59, 191, 210, 94, 140, 208, 54, 65, 65]"

fun bytes_less :: "bytes \<Rightarrow> bytes \<Rightarrow> bool" where
  "bytes_less (a # as) (b # bs) = (a < b \<or> (a = b \<and> bytes_less as bs))"
| "bytes_less _ _ = False"

definition test_library :: key_library where
  "test_library =
     \<lparr>nip19_decode = map_of [(''nsec1test'', \<lparr>decoded_type = ''nsec'', decoded_data = replicate 32 171\<rparr>)],
      getPublicKey = (\<lambda>bs. if length bs = 32 \<and> (\<exists>b \<in> set bs. b \<noteq> 0) \<and>
                               bytes_less bs secp256k1_order
                            then Some (''pub'' @ byte_hex (hd bs)) else None)\<rparr>"

definition test_store :: NostrState where
  "test_store =
     \<lparr>keys = Some \<lparr>keys_publicKey = ''pub01'', keys_privateKey = concat (replicate 32 ''01'')\<rparr>,
      store_relays = [\<lparr>url = ''wss://relay.damus.io'', status = disconnected\<rparr>],
      store_isConnected = False, userName = ''ann''\<rparr>"

definition test_probe :: ProbeState where
  "test_probe = \<lparr>metrics = initialMetrics, pingCounter = 0, probe_effects = []\<rparr>"

section \<open>Properties of the codec\<close>

lemma sextet_roundtrip: "n < 64 \<Longrightarrow> sextet_of_char (sextet_char n) = Some n"
  by (auto simp: sextet_char_def sextet_of_char_def Let_def)

lemma sextet_char_not_pad: "n < 64 \<Longrightarrow> sextet_char n \<noteq> CHR ''=''"
  using sextet_roundtrip [of n] by (auto simp: sextet_of_char_def)

lemma sextet_char_not_ws: "n < 64 \<Longrightarrow> \<not> ascii_whitespace (sextet_char n)"
  using sextet_roundtrip [of n]
  by (auto simp: sextet_of_char_def ascii_whitespace_def Let_def split: if_splits)

lemma base64_encode_shape:
  "base64_encode bs = map sextet_char (sextets_of bs) @ replicate (padding_of bs) CHR ''=''"
  by (induction bs rule: base64_encode.induct) (simp_all add: numeral_2_eq_2)

lemma sextets_of_bound:
  "\<forall>b \<in> set bs. b < 256 \<Longrightarrow> \<forall>d \<in> set (sextets_of bs). d < 64"
  by (induction bs rule: sextets_of.induct) auto

lemma padding_of_le: "padding_of bs \<le> 2"
  by (induction bs rule: padding_of.induct) simp_all

lemma sextets_of_length:
  "(length (sextets_of bs) + padding_of bs) mod 4 = 0 \<and> length (sextets_of bs) mod 4 \<noteq> 1"
proof (induction bs rule: sextets_of.induct)
  case (1 a b c rest)
  have "length (sextets_of (a # b # c # rest)) = length (sextets_of rest) + 4" by simp
  moreover have "padding_of (a # b # c # rest) = padding_of rest" by simp
  ultimately show ?case using 1 by presburger
qed simp_all

lemma base64_decode_sextets_of:
  "\<forall>b \<in> set bs. b < 256 \<Longrightarrow> base64_decode (sextets_of bs) = bs"
proof (induction bs rule: sextets_of.induct)
  case (1 a b c rest)
  have "(a div 4) * 4 + ((a mod 4) * 16 + b div 16) div 16 = a" using 1(2) by auto
  moreover have "(((a mod 4) * 16 + b div 16) mod 16) * 16 + ((b mod 16) * 4 + c div 64) div 4 = b"
    using 1(2) by auto
  moreover have "(((b mod 16) * 4 + c div 64) mod 4) * 64 + c mod 64 = c" using 1(2) by auto
  ultimately show ?case using 1 by simp
next
  case (2 a b)
  have "(a div 4) * 4 + ((a mod 4) * 16 + b div 16) div 16 = a" using 2 by auto
  moreover have "(((a mod 4) * 16 + b div 16) mod 16) * 16 + ((b mod 16) * 4) div 4 = b"
    using 2 by auto
  ultimately show ?case by simp
next
  case (3 a)
  have "(a div 4) * 4 + ((a mod 4) * 16) div 16 = a" by auto
  then show ?case by simp
next
  case 4
  show ?case by simp
qed

lemma remove_padding_encoded:
  assumes "k \<le> 2" and "\<forall>d \<in> set ds. d < 64"
  shows "remove_padding (map sextet_char ds @ replicate k CHR ''='') = map sextet_char ds"
proof -
  have ne: "x \<noteq> CHR ''=''" if "x \<in> set (rev (map sextet_char ds))" for x
    using that assms(2) sextet_char_not_pad by auto
  have tail: "drop_padding_rev (rev (map sextet_char ds)) = rev (map sextet_char ds)"
  proof (cases "rev (map sextet_char ds)")
    case Nil
    then show ?thesis by simp
  next
    case (Cons x xs)
    then have "x \<noteq> CHR ''=''" using ne by simp
    then show ?thesis using Cons by (cases xs) simp_all
  qed
  consider "k = 0" | "k = 1" | "k = 2" using assms(1) by linarith
  then show ?thesis
  proof cases
    case 1
    then show ?thesis using tail by (simp add: remove_padding_def)
  next
    case 2
    then show ?thesis using ne
      by (cases "rev (map sextet_char ds)") (auto simp: remove_padding_def)
  next
    case 3
    then show ?thesis
      by (simp add: remove_padding_def numeral_2_eq_2)
  qed
qed

lemma filter_encoded:
  assumes "\<forall>d \<in> set ds. d < 64"
  shows "filter (\<lambda>c. \<not> ascii_whitespace c) (map sextet_char ds @ replicate k CHR ''='')
           = map sextet_char ds @ replicate k CHR ''=''"
proof -
  have "\<not> ascii_whitespace CHR ''=''" by (simp add: ascii_whitespace_def)
  then show ?thesis using assms sextet_char_not_ws by (auto simp: filter_id_conv)
qed

lemma those_sextets:
  "\<forall>d \<in> set ds. d < 64 \<Longrightarrow> those (map sextet_of_char (map sextet_char ds)) = Some ds"
  by (induction ds) (simp_all add: sextet_roundtrip)

lemma atob_base64_encode:
  assumes bs: "\<forall>b \<in> set bs. b < 256"
  shows "atob (base64_encode bs) = Some (map char_of bs)"
proof -
  let ?ds = "sextets_of bs" and ?k = "padding_of bs"
  have ds: "\<forall>d \<in> set ?ds. d < 64" using bs by (rule sextets_of_bound)
  have len: "(length ?ds + ?k) mod 4 = 0" "length ?ds mod 4 \<noteq> 1"
    using sextets_of_length [of bs] by simp_all
  have f: "filter (\<lambda>c. \<not> ascii_whitespace c) (base64_encode bs) = base64_encode bs"
    unfolding base64_encode_shape using ds by (rule filter_encoded)
  have l0: "length (base64_encode bs) mod 4 = 0"
    unfolding base64_encode_shape using len(1) by simp
  have r: "remove_padding (base64_encode bs) = map sextet_char ?ds"
    unfolding base64_encode_shape using padding_of_le ds by (rule remove_padding_encoded)
  show ?thesis
    unfolding atob_def Let_def f
    using l0 r len(2) those_sextets [OF ds] base64_decode_sextets_of [OF bs] by simp
qed

lemma unat_byte_less: "unat (w :: 8 word) < 256"
  using unsigned_less [of w, where ?'a = nat] by simp

lemma unat_byte_mod: "unat (w :: 8 word) mod 256 = unat w"
  using unat_byte_less [of w] by simp

text \<open>
  Claim C10. Codec round trip: for every byte array \<open>b\<close>, decoding the text produced by
  encoding \<open>b\<close> succeeds and returns \<open>b\<close> exactly.
\<close>

theorem base64_roundtrip: "base64ToBytes (bytesToBase64 b) = Some b"
proof -
  let ?units = "map (\<lambda>w. unat w) b"
  have bound: "\<forall>u \<in> set ?units. u < 256"
  proof
    fix u assume "u \<in> set ?units"
    then obtain w :: "8 word" where "u = unat w" by auto
    then show "u < 256" using unat_byte_less by simp
  qed
  have enc: "bytesToBase64 b = base64_encode ?units"
    by (simp add: bytesToBase64_def btoa_def comp_def unat_byte_mod)
  have "atob (bytesToBase64 b) = Some (map char_of ?units)"
    unfolding enc using bound by (rule atob_base64_encode)
  then show ?thesis
    by (simp add: base64ToBytes_def comp_def unat_byte_mod map_idI)
qed

section \<open>Properties of the inbound paths\<close>

lemma imports_of_append: "imports_of (es @ fs) = imports_of es @ imports_of fs"
  by (induction es rule: imports_of.induct) simp_all

lemma applyUpdate_imports:
  "imports_of (effects (applyUpdate h e p)) =
     imports_of (effects p) @ (case payload_of h e of None \<Rightarrow> [] | Some bs \<Rightarrow> [bs])"
  by (simp add: applyUpdate_def payload_of_def console_error_def emit_def Let_def
      imports_of_append split: option.splits)

lemma applySnapshot_imports:
  "imports_of (effects (applySnapshot h e p)) =
     imports_of (effects p) @ (case payload_of h e of None \<Rightarrow> [] | Some bs \<Rightarrow> [bs])"
  by (simp add: applySnapshot_def payload_of_def console_error_def emit_def Let_def
      imports_of_append split: option.splits)

lemma fold_applyUpdate_imports:
  "imports_of (effects (fold (\<lambda>event q.
       if kind event = CRDT_UPDATE then applyUpdate h event q else q) evs p)) =
     imports_of (effects p) @
       List.map_filter (payload_of h) (filter (\<lambda>e. kind e = CRDT_UPDATE) evs)"
proof (induction evs arbitrary: p)
  case Nil
  show ?case by (simp add: List.map_filter_simps)
next
  case (Cons e evs)
  show ?case
    by (simp add: Cons.IH applyUpdate_imports List.map_filter_simps split: option.splits)
qed

lemma map_filter_app:
  "List.map_filter f (xs @ ys) = List.map_filter f xs @ List.map_filter f ys"
  by (simp add: List.map_filter_def)

lemma find_filter_conv:
  "find P xs = (case filter P xs of [] \<Rightarrow> None | x # _ \<Rightarrow> Some x)"
  by (induction xs) simp_all

lemma map_filter_all_Some:
  "\<forall>x \<in> set xs. f x \<noteq> None \<Longrightarrow> map Some (List.map_filter f xs) = map f xs"
  by (induction xs) (auto simp: List.map_filter_simps)

lemma fetchHistory_imports:
  "imports_of (effects (fetchHistory h (Some snaps) (Some upds) p)) =
     imports_of (effects p) @
       List.map_filter (payload_of h)
         (take 1 (sort_key created_at (filter (\<lambda>e. kind e = DOCUMENT_SNAPSHOT) (snaps @ upds))) @
          sort_key created_at (filter (\<lambda>e. kind e = CRDT_UPDATE) (snaps @ upds)))"
proof -
  let ?evs = "snaps @ upds"
  let ?sorted = "sort_key created_at ?evs"
  let ?S = "filter (\<lambda>e. kind e = DOCUMENT_SNAPSHOT) ?sorted"
  have S: "?S = sort_key created_at (filter (\<lambda>e. kind e = DOCUMENT_SNAPSHOT) ?evs)"
    by (rule filter_sort)
  have U: "filter (\<lambda>e. kind e = CRDT_UPDATE) ?sorted =
             sort_key created_at (filter (\<lambda>e. kind e = CRDT_UPDATE) ?evs)"
    by (rule filter_sort)
  show ?thesis
  proof (cases ?S)
    case Nil
    then show ?thesis
      using S U
      by (simp add: fetchHistory_def Let_def find_filter_conv emit_def imports_of_append
          fold_applyUpdate_imports List.map_filter_simps del: filter_append)
  next
    case (Cons s rest)
    then show ?thesis
      using S U
      by (simp add: fetchHistory_def Let_def find_filter_conv emit_def imports_of_append
          fold_applyUpdate_imports applySnapshot_imports List.map_filter_simps
          map_filter_app del: filter_append split: option.splits)
  qed
qed

lemma sort_key_short: "length xs \<le> 1 \<Longrightarrow> sort_key f xs = xs"
  by (cases xs) (simp_all add: Suc_le_eq)

lemma test_payloads:
  "payload_of test_host (test_event k t who ''{snapshot room AAEC}'') = Some [0, 1, 2]"
  "payload_of test_host (test_event k t who ''{update room AQ==}'') = Some [1]"
  "payload_of test_host (test_event k t who ''{update room AgM=}'') = Some [2, 3]"
  "payload_of test_host (test_event k t who ''{update room BAUG}'') = Some [4, 5, 6]"
  "payload_of test_host (test_event k t who ''{update elsewhere BwgJ}'') = Some [7, 8, 9]"
  "payload_of test_host (test_event k t who ''{snapshot elsewhere Cgs=}'') = Some [10, 11]"
  by (simp_all add: payload_of_def test_host_def test_envelopes_def test_event_def
      base64ToBytes_def atob_def ascii_whitespace_def remove_padding_def sextet_of_char_def)

lemma test_event_simps:
  "kind (test_event k t who c) = k" "created_at (test_event k t who c) = t"
  "pubkey (test_event k t who c) = who" "content (test_event k t who c) = c"
  by (simp_all add: test_event_def)

lemma sorted_timestamps_of_mset:
  assumes "mset xs = mset ys"
  shows "map created_at (sort_key created_at (filter P xs)) =
         map created_at (sort_key created_at (filter P ys))"
proof -
  let ?a = "map created_at (sort_key created_at (filter P xs))"
  let ?b = "map created_at (sort_key created_at (filter P ys))"
  have "mset (filter P xs) = mset (filter P ys)"
    unfolding mset_filter by (simp only: assms)
  then have "image_mset created_at (mset (filter P xs)) = image_mset created_at (mset (filter P ys))"
    by simp
  then have m: "mset ?a = mset ?b"
    by (simp only: mset_map mset_sort)
  have sa: "sorted ?a" and sb: "sorted ?b" by simp_all
  have "sort ?b = ?a" using m sa by (rule properties_for_sort)
  moreover have "sort ?b = ?b" using sb by (rule sorted_sort_id)
  ultimately show ?thesis by simp
qed

text \<open>
  Claim C1. History reconciliation: when the two queries return at most one snapshot
  event among their results and every returned event decodes, the snapshot (when there
  is one) is the first payload handed to \<^verbatim>\<open>doc.import\<close>, whatever its timestamp, and
  after it come the payloads of the update events, every one of them, in ascending
  order of \<^verbatim>\<open>created_at\<close>. The lists that the queries return are arbitrary, so the
  order in which they list the events plays no part.
\<close>

theorem fetchHistory_snapshot_then_updates_ascending:
  assumes one: "length (filter (\<lambda>e. kind e = DOCUMENT_SNAPSHOT) (snaps @ upds)) \<le> 1"
    and dec: "\<forall>e \<in> set (snaps @ upds). payload_of h e \<noteq> None"
  shows "map Some (imports_of (effects (fetchHistory h (Some snaps) (Some upds) p))) =
           map Some (imports_of (effects p)) @
           map (payload_of h)
             (filter (\<lambda>e. kind e = DOCUMENT_SNAPSHOT) (snaps @ upds) @
              sort_key created_at (filter (\<lambda>e. kind e = CRDT_UPDATE) (snaps @ upds)))
         \<and> sorted (map created_at
               (sort_key created_at (filter (\<lambda>e. kind e = CRDT_UPDATE) (snaps @ upds))))
         \<and> mset (sort_key created_at (filter (\<lambda>e. kind e = CRDT_UPDATE) (snaps @ upds))) =
             mset (filter (\<lambda>e. kind e = CRDT_UPDATE) (snaps @ upds))
         \<and> (\<forall>snaps' upds'. mset (snaps' @ upds') = mset (snaps @ upds) \<longrightarrow>
               map created_at
                 (sort_key created_at (filter (\<lambda>e. kind e = CRDT_UPDATE) (snaps' @ upds'))) =
               map created_at
                 (sort_key created_at (filter (\<lambda>e. kind e = CRDT_UPDATE) (snaps @ upds))))"
proof -
  let ?evs = "snaps @ upds"
  let ?ss = "filter (\<lambda>e. kind e = DOCUMENT_SNAPSHOT) ?evs"
  let ?us = "sort_key created_at (filter (\<lambda>e. kind e = CRDT_UPDATE) ?evs)"
  have first: "take 1 (sort_key created_at ?ss) = ?ss"
    using one by (simp add: sort_key_short)
  have "set (?ss @ ?us) \<subseteq> set ?evs" by auto
  then have all: "\<forall>e \<in> set (?ss @ ?us). payload_of h e \<noteq> None"
    using dec by blast
  have "map Some (List.map_filter (payload_of h) (?ss @ ?us)) = map (payload_of h) (?ss @ ?us)"
    using all by (rule map_filter_all_Some)
  then have a: "map Some (imports_of (effects (fetchHistory h (Some snaps) (Some upds) p))) =
               map Some (imports_of (effects p)) @ map (payload_of h) (?ss @ ?us)"
    unfolding fetchHistory_imports first by simp
  have b: "sorted (map created_at ?us)" by simp
  have c: "mset ?us = mset (filter (\<lambda>e. kind e = CRDT_UPDATE) ?evs)" by simp
  have d: "\<forall>snaps' upds'. mset (snaps' @ upds') = mset (snaps @ upds) \<longrightarrow>
      map created_at
        (sort_key created_at (filter (\<lambda>e. kind e = CRDT_UPDATE) (snaps' @ upds'))) =
      map created_at ?us"
    using sorted_timestamps_of_mset by blast
  from a b c d show ?thesis by (intro conjI)
qed

theorem fetchHistory_snapshot_then_updates_ascending_witness:
  "imports_of (effects (fetchHistory test_host
       (Some [test_event DOCUMENT_SNAPSHOT 100 ''peer'' ''{snapshot room AAEC}''])
       (Some [test_event CRDT_UPDATE 120 ''peer'' ''{update room BAUG}'',
              test_event CRDT_UPDATE 90 ''peer'' ''{update room AQ==}'',
              test_event CRDT_UPDATE 105 ''peer'' ''{update room AgM=}''])
       test_provider)) =
     [[0, 1, 2], [1], [2, 3], [4, 5, 6]] \<and>
   imports_of (effects (fetchHistory test_host
       (Some [])
       (Some [test_event CRDT_UPDATE 105 ''peer'' ''{update room AgM=}'',
              test_event CRDT_UPDATE 90 ''peer'' ''{update room AQ==}'',
              test_event DOCUMENT_SNAPSHOT 100 ''peer'' ''{snapshot room AAEC}'',
              test_event CRDT_UPDATE 120 ''peer'' ''{update room BAUG}''])
       test_provider)) =
     [[0, 1, 2], [1], [2, 3], [4, 5, 6]]"
proof -
  let ?snaps = "[test_event DOCUMENT_SNAPSHOT 100 ''peer'' ''{snapshot room AAEC}'']"
  let ?upds = "[test_event CRDT_UPDATE 120 ''peer'' ''{update room BAUG}'',
                test_event CRDT_UPDATE 90 ''peer'' ''{update room AQ==}'',
                test_event CRDT_UPDATE 105 ''peer'' ''{update room AgM=}'']"
  have k: "kind (test_event k t who c) = k" "created_at (test_event k t who c) = t"
    for k t who c by (simp_all add: test_event_def)
  have one: "length (filter (\<lambda>e. kind e = DOCUMENT_SNAPSHOT) (?snaps @ ?upds)) \<le> 1"
    by (simp add: k NOSTR_KINDS)
  have dec: "\<forall>e \<in> set (?snaps @ ?upds). payload_of test_host e \<noteq> None"
    by (simp add: test_payloads)
  have "map Some (imports_of (effects (fetchHistory test_host (Some ?snaps) (Some ?upds)
          test_provider))) = map Some [[0, 1, 2], [1], [2, 3], [4, 5, 6]]"
    using fetchHistory_snapshot_then_updates_ascending [OF one dec, of test_provider, THEN conjunct1]
    by (simp add: k NOSTR_KINDS test_payloads test_provider_def)
  then have first: "imports_of (effects (fetchHistory test_host (Some ?snaps) (Some ?upds)
          test_provider)) = [[0, 1, 2], [1], [2, 3], [4, 5, 6]]"
    by (simp only: inj_map_eq_map [OF inj_Some])
  let ?mixed = "[test_event CRDT_UPDATE 105 ''peer'' ''{update room AgM=}'',
                 test_event CRDT_UPDATE 90 ''peer'' ''{update room AQ==}'',
                 test_event DOCUMENT_SNAPSHOT 100 ''peer'' ''{snapshot room AAEC}'',
                 test_event CRDT_UPDATE 120 ''peer'' ''{update room BAUG}'']"
  have one': "length (filter (\<lambda>e. kind e = DOCUMENT_SNAPSHOT) ([] @ ?mixed)) \<le> 1"
    by (simp add: k NOSTR_KINDS)
  have dec': "\<forall>e \<in> set ([] @ ?mixed). payload_of test_host e \<noteq> None"
    by (simp add: test_payloads)
  have "map Some (imports_of (effects (fetchHistory test_host (Some []) (Some ?mixed)
          test_provider))) = map Some [[0, 1, 2], [1], [2, 3], [4, 5, 6]]"
    using fetchHistory_snapshot_then_updates_ascending [OF one' dec', of test_provider, THEN conjunct1]
    by (simp add: k NOSTR_KINDS test_payloads test_provider_def)
  then have second: "imports_of (effects (fetchHistory test_host (Some []) (Some ?mixed)
          test_provider)) = [[0, 1, 2], [1], [2, 3], [4, 5, 6]]"
    by (simp only: inj_map_eq_map [OF inj_Some])
  show ?thesis using first second by simp
qed


subsection \<open>Self-echo suppression\<close>

lemma applyUpdate_publicKey:
  "applyUpdate h e (p\<lparr>publicKey := k\<rparr>) = (applyUpdate h e p)\<lparr>publicKey := k\<rparr>"
  by (simp add: applyUpdate_def console_error_def emit_def Let_def split: option.splits)

lemma applySnapshot_publicKey:
  "applySnapshot h e (p\<lparr>publicKey := k\<rparr>) = (applySnapshot h e p)\<lparr>publicKey := k\<rparr>"
  by (simp add: applySnapshot_def console_error_def emit_def Let_def split: option.splits)

lemma fold_applyUpdate_publicKey:
  "fold (\<lambda>event q. if kind event = CRDT_UPDATE then applyUpdate h event q else q) evs
     (p\<lparr>publicKey := k\<rparr>) =
   (fold (\<lambda>event q. if kind event = CRDT_UPDATE then applyUpdate h event q else q) evs p)
     \<lparr>publicKey := k\<rparr>"
  by (induction evs arbitrary: p) (simp_all add: applyUpdate_publicKey)

lemma fetchHistory_publicKey:
  "fetchHistory h sq uq (p\<lparr>publicKey := k\<rparr>) = (fetchHistory h sq uq p)\<lparr>publicKey := k\<rparr>"
proof -
  have e: "emit ev d (q\<lparr>publicKey := k\<rparr>) = (emit ev d q)\<lparr>publicKey := k\<rparr>"
    for ev d and q :: "('a, 'b) LoroNostrProvider"
    by (simp add: emit_def)
  show ?thesis
    by (simp add: fetchHistory_def Let_def e applySnapshot_publicKey
        fold_applyUpdate_publicKey split: option.splits)
qed

text \<open>
  Claim C2, as amended. Self-echo suppression holds on the live-subscription path: an
  event whose signer is the provider's own public key leaves the provider as it was when
  it reaches \<^verbatim>\<open>handleEvent\<close>, whatever its kind, so nothing is imported, no presence is
  ingested and nothing is emitted. The history path never reads the provider's own key:
  \<^verbatim>\<open>fetchHistory\<close> does the same whatever that key is.
\<close>

theorem self_echo_suppressed_by_handleEvent:
  "(pubkey event = publicKey p \<longrightarrow> handleEvent h event p = p) \<and>
   fetchHistory h snapshotQuery updateQuery (p\<lparr>publicKey := k\<rparr>) =
     (fetchHistory h snapshotQuery updateQuery p)\<lparr>publicKey := k\<rparr>"
  by (simp add: handleEvent_def fetchHistory_publicKey)

theorem self_echo_suppressed_by_handleEvent_witness:
  "handleEvent test_host (test_event CRDT_UPDATE 90 ''me'' ''{update room AQ==}'') test_provider
     = test_provider \<and>
   handleEvent test_host (test_event DOCUMENT_SNAPSHOT 100 ''me'' ''{snapshot room AAEC}'')
     test_provider = test_provider \<and>
   handleEvent test_host (test_event PRESENCE 100 ''me'' ''{}'') test_provider = test_provider"
proof -
  have own: "pubkey (test_event k t ''me'' c) = publicKey test_provider" for k t c
    by (simp add: test_event_def test_provider_def)
  show ?thesis
    using self_echo_suppressed_by_handleEvent
      [of "test_event CRDT_UPDATE 90 ''me'' ''{update room AQ==}''" test_provider test_host]
      self_echo_suppressed_by_handleEvent
      [of "test_event DOCUMENT_SNAPSHOT 100 ''me'' ''{snapshot room AAEC}''" test_provider
        test_host]
      self_echo_suppressed_by_handleEvent
      [of "test_event PRESENCE 100 ''me'' ''{}''" test_provider test_host]
      own
    by simp
qed

text \<open>
  The claim as stated fails on the history path: an update event signed with the
  provider's own key and returned by the history query is imported.
\<close>

theorem fetchHistory_imports_own_event:
  "pubkey (test_event CRDT_UPDATE 90 ''me'' ''{update room AQ==}'') = publicKey test_provider \<and>
   imports_of (effects (fetchHistory test_host (Some [])
       (Some [test_event CRDT_UPDATE 90 ''me'' ''{update room AQ==}'']) test_provider)) = [[1]]"
  by (simp add: fetchHistory_imports test_event_simps test_payloads NOSTR_KINDS
      List.map_filter_simps test_provider_def)

subsection \<open>The envelope's document identifier\<close>

text \<open>
  Claim C3, as amended. An update or snapshot event handed to \<^verbatim>\<open>applyUpdate\<close> or
  \<^verbatim>\<open>applySnapshot\<close> is imported whenever its content parses as an envelope and the
  envelope's \<^verbatim>\<open>data\<close> decodes: the bytes are handed to \<^verbatim>\<open>doc.import\<close> whatever
  the envelope's \<^verbatim>\<open>docId\<close> is. The envelope's
  \<^verbatim>\<open>docId\<close> is not compared with the document identifier of the provider.
\<close>

theorem envelope_docId_not_compared:
  assumes "JSON_parse h (content event) =
             Some \<lparr>msg_type = ty, msg_docId = d, data = text, timestamp = ts\<rparr>"
    and "base64ToBytes text = Some bs"
  shows "imports_of (effects (applyUpdate h event p)) = imports_of (effects p) @ [bs] \<and>
         imports_of (effects (applySnapshot h event p)) = imports_of (effects p) @ [bs]"
  using assms by (simp add: applyUpdate_imports applySnapshot_imports payload_of_def)

theorem envelope_docId_not_compared_witness:
  "imports_of (effects (applyUpdate test_host
       (test_event CRDT_UPDATE 130 ''peer'' ''{update elsewhere BwgJ}'') test_provider))
     = [[7, 8, 9]] \<and>
   imports_of (effects (applySnapshot test_host
       (test_event CRDT_UPDATE 130 ''peer'' ''{update elsewhere BwgJ}'') test_provider))
     = [[7, 8, 9]]"
proof -
  have parse: "JSON_parse test_host
        (content (test_event CRDT_UPDATE 130 ''peer'' ''{update elsewhere BwgJ}'')) =
      Some \<lparr>msg_type = ''update'', msg_docId = ''elsewhere'', data = ''BwgJ'',
            timestamp = 130000\<rparr>"
    by (simp add: test_host_def test_envelopes_def test_event_def)
  have decode: "base64ToBytes ''BwgJ'' = Some [7, 8, 9]"
    by (simp add: base64ToBytes_def atob_def ascii_whitespace_def remove_padding_def
        sextet_of_char_def)
  show ?thesis
    using envelope_docId_not_compared [OF parse decode, of test_provider]
    by (simp add: test_provider_def)
qed

text \<open>
  The claim as stated fails: the provider is bound to the document \<open>room\<close>, the envelopes
  name the document \<open>elsewhere\<close>, and both the update and the snapshot are imported when
  they are received.
\<close>

theorem foreign_docId_event_imported:
  "docId test_provider = ''room'' \<and>
   map_option msg_docId (JSON_parse test_host ''{update elsewhere BwgJ}'') = Some ''elsewhere'' \<and>
   map_option msg_docId (JSON_parse test_host ''{snapshot elsewhere Cgs=}'') = Some ''elsewhere'' \<and>
   imports_of (effects (handleEvent test_host
       (test_event CRDT_UPDATE 130 ''peer'' ''{update elsewhere BwgJ}'') test_provider))
     = [[7, 8, 9]] \<and>
   imports_of (effects (handleEvent test_host
       (test_event DOCUMENT_SNAPSHOT 130 ''peer'' ''{snapshot elsewhere Cgs=}'') test_provider))
     = [[10, 11]]"
proof -
  have "publicKey test_provider = ''me''" "effects test_provider = []"
    "docId test_provider = ''room''"
    by (simp_all add: test_provider_def)
  then show ?thesis
    by (simp add: handleEvent_def test_event_simps NOSTR_KINDS applyUpdate_imports
        applySnapshot_imports test_payloads)
      (simp add: test_host_def test_envelopes_def)
qed

section \<open>Properties of the outbound path\<close>

lemma publishes_of_append: "publishes_of (es @ fs) = publishes_of es @ publishes_of fs"
  by (induction es rule: publishes_of.induct) simp_all

lemma emitted_append: "emitted ty (es @ fs) = emitted ty es @ emitted ty fs"
  by (induction ty es rule: emitted.induct) simp_all

lemma timeouts_set_append: "timeouts_set (es @ fs) = timeouts_set es @ timeouts_set fs"
  by (induction es rule: timeouts_set.induct) simp_all

lemma export_since_marker:
  "(case lastExportedVersion p of
      Some v \<Rightarrow> doc_export h (doc p) (Some v)
    | None \<Rightarrow> doc_export h (doc p) None) = doc_export h (doc p) (lastExportedVersion p)"
  by (simp split: option.splits)

subsection \<open>Empty-delta skip\<close>

text \<open>
  Claim C4. Whenever \<^verbatim>\<open>flushUpdates\<close> runs and the delta exported since the last
  exported version marker has no bytes, nothing is handed to \<^verbatim>\<open>pool.publish\<close>: the
  flush makes no call at all, and no publish is in flight when it reaches its end.
\<close>

theorem flushUpdates_empty_delta_not_published:
  assumes "doc_export h (doc p) (lastExportedVersion p) = []"
  shows "effects (flushUpdates h now results p) = effects p \<and>
         publishes_of (effects (flushUpdates h now results p)) = publishes_of (effects p) \<and>
         \<not> snd (flushUpdates_begin h now p)"
  using assms
  by (simp add: flushUpdates_def flushUpdates_begin_def Let_def export_since_marker)

theorem flushUpdates_empty_delta_not_published_witness:
  "effects (flushUpdates test_host 1000 [True, True]
      (test_provider\<lparr>doc := [[1, 2]], pendingUpdates := [[1, 2]],
         lastExportedVersion := Some 1\<rparr>)) = [] \<and>
   pendingUpdates (flushUpdates test_host 1000 [True, True]
      (test_provider\<lparr>doc := [[1, 2]], pendingUpdates := [[1, 2]],
         lastExportedVersion := Some 1\<rparr>)) = []"
proof -
  let ?p = "test_provider\<lparr>doc := [[1, 2]], pendingUpdates := [[1, 2]],
              lastExportedVersion := Some 1\<rparr>"
  have empty: "doc_export test_host (doc ?p) (lastExportedVersion ?p) = []"
    by (simp add: test_host_def test_provider_def)
  have "pendingUpdates (flushUpdates test_host 1000 [True, True] ?p) = []"
    by (simp add: flushUpdates_def flushUpdates_begin_def Let_def test_host_def
        test_provider_def)
  then show ?thesis
    using flushUpdates_empty_delta_not_published [OF empty, of 1000 "[True, True]"]
    by (simp add: test_provider_def)
qed

lemma flushUpdates_publishes_delta:
  assumes "pendingUpdates p \<noteq> []" and "doc_export h (doc p) (lastExportedVersion p) \<noteq> []"
  shows "length (publishes_of (effects (flushUpdates h now results p))) =
           Suc (length (publishes_of (effects p)))"
  using assms
  by (simp add: flushUpdates_def flushUpdates_begin_def Let_def export_since_marker
      publishUpdate_begin_def publishUpdate_settled_def emit_def publishes_of_append)

subsection \<open>Publish outcome\<close>

text \<open>
  Claim C5. \<^verbatim>\<open>publishUpdate\<close> hands one event to \<^verbatim>\<open>pool.publish\<close> and always
  returns to its caller. If at least one relay acknowledges, no \<open>error\<close> notification is
  emitted; if every relay rejects, exactly one \<open>error\<close> notification is emitted.
\<close>

theorem publishUpdate_outcome:
  "length (publishes_of (effects (publishUpdate h now results update p))) =
     Suc (length (publishes_of (effects p))) \<and>
   ((\<exists>r \<in> set results. r) \<longrightarrow>
      emitted Error (effects (publishUpdate h now results update p)) =
        emitted Error (effects p)) \<and>
   ((\<forall>r \<in> set results. \<not> r) \<longrightarrow>
      emitted Error (effects (publishUpdate h now results update p)) =
        emitted Error (effects p) @ [Failure ''Failed to publish update''])"
  by (auto simp: publishUpdate_def publishUpdate_begin_def publishUpdate_settled_def emit_def
      Let_def publishes_of_append emitted_append list_ex_iff)

theorem publishUpdate_outcome_witness:
  "emitted Error (effects (publishUpdate test_host 1000 [False, True] [1, 2] test_provider)) = []
   \<and> emitted Error (effects (publishUpdate test_host 1000 [False, False] [1, 2] test_provider))
       = [Failure ''Failed to publish update'']
   \<and> length (publishes_of
        (effects (publishUpdate test_host 1000 [False, False] [1, 2] test_provider))) = 1"
  using publishUpdate_outcome [of test_host 1000 "[False, True]" "[1, 2]" test_provider]
    publishUpdate_outcome [of test_host 1000 "[False, False]" "[1, 2]" test_provider]
  by (simp add: test_provider_def)

subsection \<open>The batch timer\<close>

lemma queueUpdate_armed:
  "batchTimer p = Some t \<Longrightarrow>
     queueUpdate update p = p\<lparr>pendingUpdates := pendingUpdates p @ [update]\<rparr>"
  by (simp add: queueUpdate_def)

lemma queueUpdate_unarmed:
  "batchTimer p = None \<Longrightarrow>
     queueUpdate update p =
       p\<lparr>pendingUpdates := pendingUpdates p @ [update],
         timers := timers p @ [nextTimer p], nextTimer := Suc (nextTimer p),
         effects := effects p @ [SetTimeout (nextTimer p) (batchInterval p)],
         batchTimer := Some (nextTimer p)\<rparr>"
  by (simp add: queueUpdate_def setTimeout_def)

lemma fold_queueUpdate_armed:
  "batchTimer p = Some t \<Longrightarrow>
     fold queueUpdate us p = p\<lparr>pendingUpdates := pendingUpdates p @ us\<rparr>"
proof (induction us arbitrary: p)
  case Nil
  show ?case by simp
next
  case (Cons u us)
  have "batchTimer (queueUpdate u p) = Some t"
    using Cons.prems by (simp add: queueUpdate_armed)
  then show ?case
    using Cons.IH [of "queueUpdate u p"] Cons.prems by (simp add: queueUpdate_armed)
qed

lemma fold_queueUpdate_unarmed:
  "batchTimer p = None \<Longrightarrow>
     fold queueUpdate (u # us) p =
       p\<lparr>pendingUpdates := pendingUpdates p @ u # us,
         timers := timers p @ [nextTimer p], nextTimer := Suc (nextTimer p),
         effects := effects p @ [SetTimeout (nextTimer p) (batchInterval p)],
         batchTimer := Some (nextTimer p)\<rparr>"
  by (simp add: queueUpdate_unarmed fold_queueUpdate_armed [where t = "nextTimer p"])

lemma timer_expires_not_armed: "timers p = [] \<Longrightarrow> timer_expires h now results t p = p"
  by (simp add: timer_expires_def)

lemma flushUpdates_keeps_timers:
  "timers (flushUpdates h now results p) = timers p"
  by (simp add: flushUpdates_def flushUpdates_begin_def Let_def publishUpdate_begin_def
      publishUpdate_settled_def emit_def)

lemma flushUpdates_disarms:
  "pendingUpdates p \<noteq> [] \<Longrightarrow>
     batchTimer (flushUpdates h now results p) = None \<and>
     pendingUpdates (flushUpdates h now results p) = []"
  by (simp add: flushUpdates_def flushUpdates_begin_def Let_def publishUpdate_begin_def
      publishUpdate_settled_def emit_def)

lemma flushUpdates_publishes_le:
  "length (publishes_of (effects (flushUpdates h now results p))) \<le>
     Suc (length (publishes_of (effects p)))"
  by (simp add: flushUpdates_def flushUpdates_begin_def Let_def publishUpdate_begin_def
      publishUpdate_settled_def emit_def publishes_of_append)

text \<open>
  Claim C6. Batch-timer debounce. For every burst \<open>u # us\<close> of enqueued updates:
  a timer is set only when none is armed (when one is armed, no \<^verbatim>\<open>setTimeout\<close> call
  is made, the handle is kept and the host's armed timers are the same; when none is
  armed, exactly one call is made, whatever the length of the burst). Starting with no
  timer armed, the burst leaves exactly one timer armed; when it expires the flush runs,
  hands at most one event to \<^verbatim>\<open>pool.publish\<close>, and leaves nothing armed, so no
  further expiry can run a flush for that burst.
\<close>

theorem queueUpdate_debounce:
  "(batchTimer p = Some t \<longrightarrow>
      batchTimer (fold queueUpdate (u # us) p) = Some t \<and>
      timers (fold queueUpdate (u # us) p) = timers p \<and>
      timeouts_set (effects (fold queueUpdate (u # us) p)) = timeouts_set (effects p)) \<and>
   (batchTimer p = None \<longrightarrow>
      batchTimer (fold queueUpdate (u # us) p) = Some (nextTimer p) \<and>
      timers (fold queueUpdate (u # us) p) = timers p @ [nextTimer p] \<and>
      timeouts_set (effects (fold queueUpdate (u # us) p)) =
        timeouts_set (effects p) @ [nextTimer p]) \<and>
   pendingUpdates (fold queueUpdate (u # us) p) = pendingUpdates p @ u # us \<and>
   (batchTimer p = None \<and> timers p = [] \<longrightarrow>
      (let fired = timer_expires h now results (nextTimer p) (fold queueUpdate (u # us) p) in
       timers fired = [] \<and> batchTimer fired = None \<and> pendingUpdates fired = [] \<and>
       length (publishes_of (effects fired)) \<le> Suc (length (publishes_of (effects p))) \<and>
       timer_expires h now' results' t' fired = fired))"
proof -
  have armed: "batchTimer p = Some t \<longrightarrow>
      batchTimer (fold queueUpdate (u # us) p) = Some t \<and>
      timers (fold queueUpdate (u # us) p) = timers p \<and>
      timeouts_set (effects (fold queueUpdate (u # us) p)) = timeouts_set (effects p)"
    using fold_queueUpdate_armed [of p t "u # us"] by auto
  have unarmed: "batchTimer p = None \<longrightarrow>
      batchTimer (fold queueUpdate (u # us) p) = Some (nextTimer p) \<and>
      timers (fold queueUpdate (u # us) p) = timers p @ [nextTimer p] \<and>
      timeouts_set (effects (fold queueUpdate (u # us) p)) =
        timeouts_set (effects p) @ [nextTimer p]"
    using fold_queueUpdate_unarmed [of p u us] by (simp add: timeouts_set_append)
  have pending: "pendingUpdates (fold queueUpdate (u # us) p) = pendingUpdates p @ u # us"
  proof (cases "batchTimer p")
    case None
    then show ?thesis using fold_queueUpdate_unarmed [of p u us] by simp
  next
    case (Some t0)
    then show ?thesis using fold_queueUpdate_armed [of p t0 "u # us"] by simp
  qed
  have window: "batchTimer p = None \<and> timers p = [] \<longrightarrow>
      (let fired = timer_expires h now results (nextTimer p) (fold queueUpdate (u # us) p) in
       timers fired = [] \<and> batchTimer fired = None \<and> pendingUpdates fired = [] \<and>
       length (publishes_of (effects fired)) \<le> Suc (length (publishes_of (effects p))) \<and>
       timer_expires h now' results' t' fired = fired)"
  proof
    assume a: "batchTimer p = None \<and> timers p = []"
    let ?q = "fold queueUpdate (u # us) p"
    let ?q' = "?q\<lparr>timers := removeAll (nextTimer p) (timers ?q)\<rparr>"
    let ?fired = "timer_expires h now results (nextTimer p) ?q"
    have q: "timers ?q = [nextTimer p]" "pendingUpdates ?q \<noteq> []"
      "publishes_of (effects ?q) = publishes_of (effects p)"
      using a fold_queueUpdate_unarmed [of p u us] by (simp_all add: publishes_of_append)
    have fired: "?fired = flushUpdates h now results ?q'"
      using q(1) by (simp add: timer_expires_def)
    have t: "timers ?fired = []"
      unfolding fired flushUpdates_keeps_timers using q(1) by simp
    have d: "batchTimer ?fired = None \<and> pendingUpdates ?fired = []"
      unfolding fired using q(2) by (intro flushUpdates_disarms) simp
    have l: "length (publishes_of (effects ?fired)) \<le> Suc (length (publishes_of (effects p)))"
      unfolding fired using flushUpdates_publishes_le [of h now results ?q'] q(3) by simp
    have again: "timer_expires h now' results' t' ?fired = ?fired"
      using t by (rule timer_expires_not_armed)
    show "let fired = ?fired in
       timers fired = [] \<and> batchTimer fired = None \<and> pendingUpdates fired = [] \<and>
       length (publishes_of (effects fired)) \<le> Suc (length (publishes_of (effects p))) \<and>
       timer_expires h now' results' t' fired = fired"
      using t d l again by (simp add: Let_def)
  qed
  show ?thesis using armed unarmed pending window by blast
qed

theorem queueUpdate_debounce_witness:
  "timeouts_set (effects (fold queueUpdate [[1], [2], [3]] test_provider)) = [1] \<and>
   timers (fold queueUpdate [[1], [2], [3]] test_provider) = [1] \<and>
   pendingUpdates (fold queueUpdate [[1], [2], [3]] test_provider) = [[1], [2], [3]] \<and>
   timers (timer_expires test_host 1000 [True, True] 1
             (fold queueUpdate [[1], [2], [3]] test_provider)) = [] \<and>
   timeouts_set (effects (fold queueUpdate [[2], [3]]
       (test_provider\<lparr>batchTimer := Some 1, timers := [1], nextTimer := 2\<rparr>))) = []"
proof -
  have none: "batchTimer test_provider = None \<and> timers test_provider = []"
    "nextTimer test_provider = 1" "effects test_provider = []"
    "pendingUpdates test_provider = []"
    by (simp_all add: test_provider_def)
  let ?p = "test_provider\<lparr>batchTimer := Some 1, timers := [1], nextTimer := 2\<rparr>"
  have some: "batchTimer ?p = Some 1" "effects ?p = []"
    by (simp_all add: test_provider_def)
  show ?thesis
    using queueUpdate_debounce [of test_provider 0 "[1]" "[[2], [3]]" test_host 1000
        "[True, True]" 1000 "[True, True]" 1]
      queueUpdate_debounce [of ?p 1 "[2]" "[[3]]" test_host 1000 "[True, True]" 1000
        "[True, True]" 1]
      none some
    by (simp add: Let_def)
qed

subsection \<open>Disconnect\<close>

text \<open>
  Claim C7 says that \<^verbatim>\<open>disconnect\<close> flushes the pending updates first and only then
  closes the relay pool. The code does it the other way round: with a subscription
  active, a batch timer armed and a non-empty delta pending, the calls are, in this
  order, \<^verbatim>\<open>pool.close\<close>, \<^verbatim>\<open>clearTimeout\<close>, \<^verbatim>\<open>pool.publish\<close> (the flush), and
  the \<open>disconnected\<close> notification; the publish is still in flight when
  \<^verbatim>\<open>disconnect\<close> returns.
\<close>

theorem disconnect_closes_pool_before_flush:
  assumes "subscriptionId p = Some ''active''" and "batchTimer p = Some t"
    and "pendingUpdates p \<noteq> []" and "doc_export h (doc p) (lastExportedVersion p) \<noteq> []"
  shows "\<exists>event. effects (fst (disconnect h now p)) =
           effects p @ [PoolClose (relays p), ClearTimeout t, PoolPublish (relays p) event,
                        Emit Disconnected Empty] \<and>
         snd (disconnect h now p) \<and> \<not> isConnected (fst (disconnect h now p))"
  using assms
  by (simp add: disconnect_def clearTimeout_def flushUpdates_begin_def Let_def
      export_since_marker publishUpdate_begin_def emit_def)

theorem disconnect_closes_pool_before_flush_witness:
  "effects (fst (disconnect test_host 5000
      (test_provider\<lparr>doc := [[1, 2]], pendingUpdates := [[1, 2]], batchTimer := Some 1,
         timers := [1], nextTimer := 2\<rparr>))) =
     [PoolClose [''wss://a'', ''wss://b''], ClearTimeout 1,
      PoolPublish [''wss://a'', ''wss://b'']
        \<lparr>kind = 21000, created_at = 5, tags = [[''d'', ''room'']],
         content = ''{update room AQI=}'', event_id = ''id'', pubkey = ''me'', sig = ''sig''\<rparr>,
      Emit Disconnected Empty]"
proof -
  let ?p = "test_provider\<lparr>doc := [[1, 2]], pendingUpdates := [[1, 2]], batchTimer := Some 1,
              timers := [1], nextTimer := 2\<rparr>"
  have a: "subscriptionId ?p = Some ''active''" "batchTimer ?p = Some 1"
    "pendingUpdates ?p \<noteq> []"
    by (simp_all add: test_provider_def)
  have b: "doc_export test_host (doc ?p) (lastExportedVersion ?p) \<noteq> []"
    by (simp add: test_provider_def test_host_def)
  have enc: "bytesToBase64 [1, 2] = ''AQI=''"
    by code_simp
  show ?thesis
    using disconnect_closes_pool_before_flush [OF a b, of 5000]
    by (simp add: disconnect_def clearTimeout_def flushUpdates_begin_def Let_def
        publishUpdate_begin_def emit_def test_provider_def test_host_def enc NOSTR_KINDS)
qed

section \<open>Properties of the key store\<close>

lemma importKeys_try_None_iff:
  "importKeys_try lib key = None \<longleftrightarrow>
     hexKey_of lib key = None \<or>
     (\<exists>hexKey. hexKey_of lib key = Some hexKey \<and>
        (privateKeyBytes hexKey = None \<or>
         (\<exists>bs. privateKeyBytes hexKey = Some bs \<and> getPublicKey lib bs = None)))"
  by (auto simp: importKeys_try_def split: option.splits)

lemma importKeys_accepts:
  "importKeys_try lib key = Some ks \<Longrightarrow> importKeys lib key s = (None, s\<lparr>keys := Some ks\<rparr>)"
  by (simp add: importKeys_def)

lemma importKeys_throws_unchanged:
  "fst (importKeys lib key s) \<noteq> None \<Longrightarrow>
     importKeys lib key s = (Some ''Invalid private key format'', s)"
  by (simp add: importKeys_def split: option.splits)

lemma importKeys_throws_iff:
  "fst (importKeys lib key s) \<noteq> None \<longleftrightarrow> importKeys_try lib key = None"
  by (simp add: importKeys_def split: option.splits)

lemma parseInt16_1z: "parseInt16 ''1z'' = Some 1"
  by (simp add: parseInt16_def js_whitespace_def hex_digit_value_def Let_def)

lemma match_pairs_1z: "match_pairs (concat (replicate n ''1z'')) = replicate n ''1z''"
  by (induction n) (simp_all add: line_terminator_def)

lemma privateKeyBytes_1z:
  "privateKeyBytes (concat (replicate (Suc n) ''1z'')) = Some (replicate (Suc n) 1)"
  unfolding privateKeyBytes_def match_pairs_1z
  by (simp add: parseInt16_1z toUint8_def)

lemma take_1z: "take 4 (concat (replicate (Suc (Suc n)) ''1z'')) = ''1z1z''"
  by simp

lemma byte_hex_1: "byte_hex 1 = ''01''"
  by code_simp

lemma test_library_accepts_ones:
  "getPublicKey test_library (replicate 32 1) = Some ''pub01''"
proof -
  have r: "replicate 32 (1 :: 8 word) = 1 # replicate 31 1"
    by (simp add: numeral_eq_Suc)
  have "bytes_less (replicate 32 1) secp256k1_order"
    unfolding r secp256k1_order_def by simp
  then show ?thesis
    by (simp add: test_library_def byte_hex_1 r)
qed

lemma malformed_text_read_as_bytes:
  "take 4 (concat (replicate 32 ''1z'')) = ''1z1z''"
  "privateKeyBytes (concat (replicate 32 ''1z'')) = Some (replicate 32 1)"
proof -
  have a: "Suc (Suc 30) = 32" and b: "Suc 31 = 32" by simp_all
  show "take 4 (concat (replicate 32 ''1z'')) = ''1z1z''"
    using take_1z [of 30] unfolding a .
  show "privateKeyBytes (concat (replicate 32 ''1z'')) = Some (replicate 32 1)"
    using privateKeyBytes_1z [of 31] unfolding b .
qed

text \<open>
  Claim C9 says that every input that cannot be parsed as a valid private key makes
  \<^verbatim>\<open>importKeys\<close> throw and leaves the stored keys as they were. The code does not
  do that for a text that is neither hexadecimal nor \<open>nsec\<close>: \<^verbatim>\<open>parseInt\<close> reads
  each pair up to its first character that is no hexadecimal digit, so the 64 characters
  \<open>1z1z...1z\<close> are read as 32 bytes of value 1. Every key library that accepts these
  bytes (they are a valid key) makes \<^verbatim>\<open>importKeys\<close> return without an error, and the
  text itself replaces the stored private key.
\<close>

theorem importKeys_accepts_text_that_is_no_key:
  assumes "getPublicKey lib (replicate 32 1) = Some pk"
  shows "hex_digit_value CHR ''z'' = None \<and>
         importKeys lib (concat (replicate 32 ''1z'')) s =
           (None, s\<lparr>keys := Some \<lparr>keys_publicKey = pk,
                                   keys_privateKey = concat (replicate 32 ''1z'')\<rparr>\<rparr>)"
proof -
  have z: "hex_digit_value CHR ''z'' = None" by (simp add: hex_digit_value_def)
  have "hexKey_of lib (concat (replicate 32 ''1z'')) = Some (concat (replicate 32 ''1z''))"
    by (simp add: hexKey_of_def malformed_text_read_as_bytes(1))
  then have "importKeys_try lib (concat (replicate 32 ''1z'')) =
      Some \<lparr>keys_publicKey = pk, keys_privateKey = concat (replicate 32 ''1z'')\<rparr>"
    using assms by (simp add: importKeys_try_def malformed_text_read_as_bytes(2))
  then show ?thesis using z by (simp add: importKeys_def)
qed

theorem importKeys_accepts_text_that_is_no_key_witness:
  "keys test_store =
     Some \<lparr>keys_publicKey = ''pub01'', keys_privateKey = concat (replicate 32 ''01'')\<rparr> \<and>
   importKeys test_library (concat (replicate 32 ''1z'')) test_store =
     (None, test_store\<lparr>keys := Some \<lparr>keys_publicKey = ''pub01'',
                                       keys_privateKey = concat (replicate 32 ''1z'')\<rparr>\<rparr>)"
proof -
  have st: "keys test_store =
      Some \<lparr>keys_publicKey = ''pub01'', keys_privateKey = concat (replicate 32 ''01'')\<rparr>"
    by (simp add: test_store_def)
  show ?thesis
    using importKeys_accepts_text_that_is_no_key [OF test_library_accepts_ones, of test_store]
      st
    by (simp only: simp_thms)
qed

section \<open>Properties of the latency probe\<close>

lemma decimal_value_decimal_text: "decimal_value (decimal_text n) = n"
proof (induction n rule: decimal_text.induct)
  case (1 n)
  show ?case
  proof (cases "10 \<le> n")
    case False
    then show ?thesis
      by (subst decimal_text.simps) (simp add: decimal_value_def decimal_digit_def)
  next
    case True
    have "n mod 10 < 10" by simp
    then have d: "of_char (decimal_digit (n mod 10)) = 48 + n mod 10"
      by (simp add: decimal_digit_def of_char_of)
    have "decimal_value (decimal_text n) =
            decimal_value (decimal_text (n div 10)) * 10 + n mod 10"
      using True d by (subst decimal_text.simps) (simp add: decimal_value_def)
    then show ?thesis using 1 True by simp
  qed
qed

lemma decimal_text_inj: "decimal_text a = decimal_text b \<Longrightarrow> a = b"
  by (metis decimal_value_decimal_text)

lemma keep_last_length: "length (keep_last c xs) \<le> c"
  by (simp add: keep_last_def)

lemma keep_last_subset: "set (keep_last c xs) \<subseteq> set xs"
  by (simp add: keep_last_def set_drop_subset)

lemma keep_last_snoc: "0 < c \<Longrightarrow> keep_last c (xs @ [x]) = keep_last (c - 1) xs @ [x]"
  by (auto simp: keep_last_def Suc_diff_le)

lemma keep_last_keep_last: "keep_last c (keep_last c xs @ ys) = keep_last c (xs @ ys)"
proof (cases "length xs \<le> c")
  case True
  then show ?thesis by (simp add: keep_last_def)
next
  case False
  then have "length xs + length ys - (length xs - c + c) + (length xs - c) =
               length xs + length ys - c" by arith
  then show ?thesis using False by (simp add: keep_last_def)
qed

lemma keep_last_covered: "c \<le> length ys \<Longrightarrow> keep_last c (xs @ ys) = keep_last c ys"
  by (simp add: keep_last_def)


lemma ping_measurements:
  "0 < capacity \<Longrightarrow>
     measurements (metrics (ping capacity h p now st)) =
       keep_last (capacity - 1) (measurements (metrics st)) @
         [\<lparr>measurement_id = decimal_text (pingCounter st), sentAt = now, receivedAt = None,
           latency = None, relay = None\<rparr>]"
  by (simp add: ping_def Let_def keep_last_snoc)

lemma ping_fresh:
  "probe_ids_used st \<Longrightarrow>
     decimal_text (pingCounter st) \<notin> measurement_id ` set (measurements (metrics st))"
proof
  assume used: "probe_ids_used st"
    and "decimal_text (pingCounter st) \<in> measurement_id ` set (measurements (metrics st))"
  then obtain x where x: "x \<in> set (measurements (metrics st))"
    "measurement_id x = decimal_text (pingCounter st)" by auto
  then obtain k where "k < pingCounter st" "measurement_id x = decimal_text k"
    using used by (auto simp: probe_ids_used_def)
  then show False using x(2) decimal_text_inj by force
qed

lemma ping_keeps_ids_used: "probe_ids_used st \<Longrightarrow> probe_ids_used (ping capacity h p now st)"
proof -
  assume used: "probe_ids_used st"
  have "\<exists>k < Suc (pingCounter st). measurement_id x = decimal_text k"
    if "x \<in> set (keep_last capacity (measurements (metrics st) @
          [\<lparr>measurement_id = decimal_text (pingCounter st), sentAt = now, receivedAt = None,
            latency = None, relay = None\<rparr>]))" for x
  proof -
    from that keep_last_subset
    have "x \<in> set (measurements (metrics st)) \<or>
          x = \<lparr>measurement_id = decimal_text (pingCounter st), sentAt = now,
               receivedAt = None, latency = None, relay = None\<rparr>"
      by fastforce
    then show ?thesis
    proof
      assume "x \<in> set (measurements (metrics st))"
      then obtain k where "k < pingCounter st" "measurement_id x = decimal_text k"
        using used by (auto simp: probe_ids_used_def)
      then show ?thesis using less_Suc_eq by blast
    next
      assume "x = \<lparr>measurement_id = decimal_text (pingCounter st), sentAt = now,
                   receivedAt = None, latency = None, relay = None\<rparr>"
      then show ?thesis by auto
    qed
  qed
  then show ?thesis by (simp add: probe_ids_used_def ping_def Let_def)
qed

lemma completeMeasurement_unmatched:
  "pid \<notin> measurement_id ` set (measurements (metrics st)) \<Longrightarrow>
     completeMeasurement pid now st = st"
proof -
  assume "pid \<notin> measurement_id ` set (measurements (metrics st))"
  then have "find (\<lambda>x. measurement_id x = pid \<and> latency x = None) (measurements (metrics st))
               = None"
    by (auto simp: find_None_iff)
  then show ?thesis by (simp add: completeMeasurement_def Let_def)
qed

lemma find_snoc_only:
  "\<forall>x \<in> set xs. \<not> P x \<Longrightarrow> P y \<Longrightarrow> find P (xs @ [y]) = Some y"
  by (induction xs) simp_all

lemma latencies_snoc: "latencies (ms @ [x]) =
    latencies ms @ (case latency x of None \<Rightarrow> [] | Some l \<Rightarrow> [l])"
  by (simp add: latencies_def List.map_filter_def split: option.splits)

lemma minimum_Min: "ls \<noteq> [] \<Longrightarrow> minimum ls = Some (Min (set ls))"
proof (cases ls)
  case Nil
  assume "ls \<noteq> []"
  then show ?thesis using Nil by simp
next
  case (Cons a list)
  have "fold min list a = Min (set (a # list))" by (rule Min.set_eq_fold [symmetric])
  then show ?thesis using Cons by (simp add: minimum_def)
qed

lemma maximum_Max: "ls \<noteq> [] \<Longrightarrow> maximum ls = Max (set ls)"
proof (cases ls)
  case Nil
  assume "ls \<noteq> []"
  then show ?thesis using Nil by simp
next
  case (Cons a list)
  have "fold max list a = Max (set (a # list))" by (rule Max.set_eq_fold [symmetric])
  then show ?thesis using Cons by (simp add: maximum_def)
qed

lemma completeMeasurement_pending:
  assumes cap: "0 < capacity" and used: "probe_ids_used st"
  shows "metrics (completeMeasurement (decimal_text (pingCounter st)) t1
            (ping capacity h p t0 st)) =
         (metrics st)
           \<lparr>measurements :=
              keep_last (capacity - 1) (measurements (metrics st)) @
                [\<lparr>measurement_id = decimal_text (pingCounter st), sentAt = t0,
                  receivedAt = Some t1, latency = Some (t1 - t0), relay = None\<rparr>],
            lastLatency := t1 - t0,
            minLatency := minimum
              (latencies (keep_last (capacity - 1) (measurements (metrics st))) @ [t1 - t0]),
            maxLatency := maximum
              (latencies (keep_last (capacity - 1) (measurements (metrics st))) @ [t1 - t0]),
            avgLatency := average
              (latencies (keep_last (capacity - 1) (measurements (metrics st))) @ [t1 - t0])\<rparr>"
proof -
  let ?pid = "decimal_text (pingCounter st)"
  let ?pre = "keep_last (capacity - 1) (measurements (metrics st))"
  let ?pend = "\<lparr>measurement_id = ?pid, sentAt = t0, receivedAt = None, latency = None,
                relay = None\<rparr>"
  let ?P = "\<lambda>x. measurement_id x = ?pid \<and> latency x = None"
  let ?f = "\<lambda>x. if measurement_id x = ?pid \<and> latency x = None
                 then x\<lparr>receivedAt := Some t1, latency := Some (t1 - sentAt x)\<rparr> else x"
  have ms1: "measurements (metrics (ping capacity h p t0 st)) = ?pre @ [?pend]"
    using cap by (rule ping_measurements)
  have other: "\<forall>x \<in> set ?pre. \<not> ?P x"
  proof
    fix x assume "x \<in> set ?pre"
    then have "x \<in> set (measurements (metrics st))"
      using keep_last_subset by fastforce
    then have "measurement_id x \<noteq> ?pid"
      using ping_fresh [OF used] by (metis imageI)
    then show "\<not> ?P x" by simp
  qed
  have found: "find ?P (?pre @ [?pend]) = Some ?pend"
    using other by (rule find_snoc_only) simp
  have "map ?f ?pre = ?pre"
    using other by (intro map_idI) auto
  then have mapped: "map ?f (?pre @ [?pend]) =
      ?pre @ [\<lparr>measurement_id = ?pid, sentAt = t0, receivedAt = Some t1,
                latency = Some (t1 - t0), relay = None\<rparr>]"
    by simp
  have m1: "metrics (ping capacity h p t0 st) =
              (metrics st)\<lparr>measurements := ?pre @ [?pend]\<rparr>"
    using ms1 by (simp add: ping_def Let_def)
  show ?thesis
    unfolding completeMeasurement_def Let_def ms1 found mapped
    by (simp add: m1 latencies_snoc)
qed

lemma fold_ping_history:
  "length (measurements (metrics st)) \<le> capacity \<Longrightarrow>
   \<exists>news. length news = length nows \<and>
      (\<forall>x \<in> set news. \<exists>k \<ge> pingCounter st. measurement_id x = decimal_text k) \<and>
      measurements (metrics (fold (ping capacity h p) nows st)) =
        keep_last capacity (measurements (metrics st) @ news)"
proof (induction nows arbitrary: st)
  case Nil
  then show ?case by (simp add: keep_last_def)
next
  case (Cons t ts)
  let ?pend = "\<lparr>measurement_id = decimal_text (pingCounter st), sentAt = t, receivedAt = None,
                latency = None, relay = None\<rparr>"
  let ?st = "ping capacity h p t st"
  have ms: "measurements (metrics ?st) = keep_last capacity (measurements (metrics st) @ [?pend])"
    by (simp add: ping_def Let_def)
  have cnt: "pingCounter ?st = Suc (pingCounter st)"
    by (simp add: ping_def Let_def)
  have "length (measurements (metrics ?st)) \<le> capacity"
    unfolding ms by (rule keep_last_length)
  from Cons.IH [OF this]
  obtain news where news: "length news = length ts"
    "\<forall>x \<in> set news. \<exists>k \<ge> pingCounter ?st. measurement_id x = decimal_text k"
    "measurements (metrics (fold (ping capacity h p) ts ?st)) =
       keep_last capacity (measurements (metrics ?st) @ news)"
    by blast
  have a: "length (?pend # news) = length (t # ts)" using news(1) by simp
  have b: "\<forall>x \<in> set (?pend # news). \<exists>k \<ge> pingCounter st. measurement_id x = decimal_text k"
    using news(2) cnt by (auto intro: Suc_leD)
  have c: "measurements (metrics (fold (ping capacity h p) (t # ts) st)) =
             keep_last capacity (measurements (metrics st) @ ?pend # news)"
    using news(3) keep_last_keep_last [of capacity "measurements (metrics st) @ [?pend]" news]
    by (simp add: ms)
  show ?case using a b c by blast
qed

lemma fold_ping_effects:
  "emitted ty (probe_effects (fold (ping capacity h p) nows st)) = emitted ty (probe_effects st)"
  by (induction nows arbitrary: st) (simp_all add: ping_def Let_def emitted_append)

lemma fold_ping_ages_out:
  assumes len: "length (measurements (metrics st)) \<le> capacity"
    and enough: "capacity \<le> length nows"
    and old: "k < pingCounter st"
  shows "decimal_text k \<notin>
           measurement_id ` set (measurements (metrics (fold (ping capacity h p) nows st)))"
proof
  assume "decimal_text k \<in>
            measurement_id ` set (measurements (metrics (fold (ping capacity h p) nows st)))"
  then obtain x where x: "x \<in> set (measurements (metrics (fold (ping capacity h p) nows st)))"
    "measurement_id x = decimal_text k" by auto
  obtain news where news: "length news = length nows"
    "\<forall>x \<in> set news. \<exists>k \<ge> pingCounter st. measurement_id x = decimal_text k"
    "measurements (metrics (fold (ping capacity h p) nows st)) =
       keep_last capacity (measurements (metrics st) @ news)"
    using fold_ping_history [OF len] by blast
  have "keep_last capacity (measurements (metrics st) @ news) = keep_last capacity news"
    using enough news(1) by (simp add: keep_last_covered)
  then have "x \<in> set news" using x(1) news(3) keep_last_subset by fastforce
  then obtain k' where "k' \<ge> pingCounter st" "measurement_id x = decimal_text k'"
    using news(2) by blast
  then show False using x(2) old decimal_text_inj by force
qed

text \<open>
  Claim C8. Latency probe. With a history bound \<open>capacity > 0\<close> and a state whose sample
  identifiers were all given out by the counter: \<^verbatim>\<open>ping\<close> hands one probe envelope
  to the relay layer, of kind \<open>PING\<close> and carrying an identifier that no sample of the
  history has, and records a pending measurement with the time of sending. When the
  matching \<open>pong\<close> (or the prober's own ping echoed back) is observed at time \<open>t1\<close>, the
  measurement gets the elapsed time \<open>t1 - t0\<close>; the last latency is that time; minimum,
  maximum and average are those of the latencies in the history, which stays within its
  bound. A ping that is never answered leaves the history once \<open>capacity\<close> further pings
  were sent; a late answer to it changes nothing; and no \<open>error\<close> notification is produced
  anywhere on the way.
\<close>

theorem latency_probe:
  assumes cap: "0 < capacity"
    and used: "probe_ids_used st"
    and ev: "kind event = PONG \<or> (kind event = PING \<and> pubkey event = own)"
    and cont: "content event = decimal_text (pingCounter st)"
    and enough: "capacity \<le> length nows"
  shows
    "let pid = decimal_text (pingCounter st);
         st1 = ping capacity h p t0 st;
         st2 = observeProbe own event t1 st1;
         ls = latencies (measurements (metrics st2));
         st3 = fold (ping capacity h p) nows st1
     in pid \<notin> measurement_id ` set (measurements (metrics st)) \<and>
        publishes_of (probe_effects st1) =
          publishes_of (probe_effects st) @
            [finalizeEvent h
               \<lparr>kind = PING, created_at = t0 div 1000, tags = [[''d'', docId p]],
                content = pid\<rparr> (privateKey p)] \<and>
        last (measurements (metrics st1)) =
          \<lparr>measurement_id = pid, sentAt = t0, receivedAt = None, latency = None,
           relay = None\<rparr> \<and>
        last (measurements (metrics st2)) =
          \<lparr>measurement_id = pid, sentAt = t0, receivedAt = Some t1, latency = Some (t1 - t0),
           relay = None\<rparr> \<and>
        lastLatency (metrics st2) = t1 - t0 \<and>
        minLatency (metrics st2) = Some (Min (set ls)) \<and>
        maxLatency (metrics st2) = Max (set ls) \<and>
        avgLatency (metrics st2) = real_of_int (sum_list ls) / real (length ls) \<and>
        Min (set ls) \<le> t1 - t0 \<and> t1 - t0 \<le> Max (set ls) \<and>
        length (measurements (metrics st2)) \<le> capacity \<and>
        pid \<notin> measurement_id ` set (measurements (metrics st3)) \<and>
        observeProbe own event t1 st3 = st3 \<and>
        emitted Error (probe_effects st2) = emitted Error (probe_effects st) \<and>
        emitted Error (probe_effects st3) = emitted Error (probe_effects st)"
proof -
  let ?pid = "decimal_text (pingCounter st)"
  let ?st1 = "ping capacity h p t0 st"
  let ?st2 = "observeProbe own event t1 ?st1"
  let ?st3 = "fold (ping capacity h p) nows ?st1"
  let ?pre = "keep_last (capacity - 1) (measurements (metrics st))"
  let ?ls = "latencies ?pre @ [t1 - t0]"
  have st2: "?st2 = completeMeasurement ?pid t1 ?st1"
    using ev cont by (simp add: observeProbe_def)
  have m2: "metrics ?st2 =
      (metrics st)
        \<lparr>measurements := ?pre @
           [\<lparr>measurement_id = ?pid, sentAt = t0, receivedAt = Some t1,
             latency = Some (t1 - t0), relay = None\<rparr>],
         lastLatency := t1 - t0, minLatency := minimum ?ls, maxLatency := maximum ?ls,
         avgLatency := average ?ls\<rparr>"
    unfolding st2 using cap used by (rule completeMeasurement_pending)
  have ls: "latencies (measurements (metrics ?st2)) = ?ls"
    by (simp add: m2 latencies_snoc)
  have ne: "?ls \<noteq> []" by simp
  have c1: "?pid \<notin> measurement_id ` set (measurements (metrics st))"
    using used by (rule ping_fresh)
  have c2: "publishes_of (probe_effects ?st1) =
      publishes_of (probe_effects st) @
        [finalizeEvent h
           \<lparr>kind = PING, created_at = t0 div 1000, tags = [[''d'', docId p]],
            content = ?pid\<rparr> (privateKey p)]"
    by (simp add: ping_def Let_def publishes_of_append)
  have c3: "last (measurements (metrics ?st1)) =
      \<lparr>measurement_id = ?pid, sentAt = t0, receivedAt = None, latency = None, relay = None\<rparr>"
    using cap by (simp add: ping_measurements)
  have c4: "last (measurements (metrics ?st2)) =
      \<lparr>measurement_id = ?pid, sentAt = t0, receivedAt = Some t1, latency = Some (t1 - t0),
       relay = None\<rparr>"
    by (simp add: m2)
  have c5: "lastLatency (metrics ?st2) = t1 - t0" by (simp add: m2)
  have c6: "minLatency (metrics ?st2) = Some (Min (set ?ls))"
    using minimum_Min [OF ne] by (simp add: m2)
  have c7: "maxLatency (metrics ?st2) = Max (set ?ls)"
    using maximum_Max [OF ne] by (simp add: m2)
  have c8: "avgLatency (metrics ?st2) = real_of_int (sum_list ?ls) / real (length ?ls)"
    by (simp add: m2 average_def)
  have c9: "Min (set ?ls) \<le> t1 - t0" by (intro Min_le) simp_all
  have c10: "t1 - t0 \<le> Max (set ?ls)" by (intro Max_ge) simp_all
  have "length ?pre \<le> capacity - 1" by (rule keep_last_length)
  then have c11: "length (measurements (metrics ?st2)) \<le> capacity"
    using cap by (simp add: m2)
  have len1: "length (measurements (metrics ?st1)) \<le> capacity"
    by (simp add: ping_def Let_def keep_last_length)
  have "pingCounter st < pingCounter ?st1" by (simp add: ping_def Let_def)
  with len1 enough have c12: "?pid \<notin> measurement_id ` set (measurements (metrics ?st3))"
    by (rule fold_ping_ages_out)
  have c13: "observeProbe own event t1 ?st3 = ?st3"
    using ev cont completeMeasurement_unmatched [OF c12] by (simp add: observeProbe_def)
  have e1: "emitted Error (probe_effects ?st1) = emitted Error (probe_effects st)"
    by (simp add: ping_def Let_def emitted_append)
  have "probe_effects ?st2 = probe_effects ?st1"
    unfolding st2 by (simp add: completeMeasurement_def Let_def split: option.splits)
  then have c14: "emitted Error (probe_effects ?st2) = emitted Error (probe_effects st)"
    using e1 by simp
  have c15: "emitted Error (probe_effects ?st3) = emitted Error (probe_effects st)"
    using e1 by (simp add: fold_ping_effects)
  show ?thesis
    unfolding Let_def ls
    using c1 c2 c3 c4 c5 c6 c7 c8 c9 c10 c11 c12 c13 c14 c15 by blast
qed

lemma decimal_text_digits:
  "decimal_text 0 = ''0''" "decimal_text (Suc 0) = ''1''"
  "decimal_text (Suc (Suc 0)) = ''2''"
  by code_simp+

theorem latency_probe_witness:
  "measurements (metrics (observeProbe ''me'' (test_event PONG 2 ''peer'' ''0'') 1040
       (ping 2 test_host test_provider 1000 test_probe))) =
     [\<lparr>measurement_id = ''0'', sentAt = 1000, receivedAt = Some 1040, latency = Some 40,
       relay = None\<rparr>] \<and>
   lastLatency (metrics (observeProbe ''me'' (test_event PONG 2 ''peer'' ''0'') 1040
       (ping 2 test_host test_provider 1000 test_probe))) = 40 \<and>
   minLatency (metrics (observeProbe ''me'' (test_event PONG 2 ''peer'' ''0'') 1040
       (ping 2 test_host test_provider 1000 test_probe))) = Some 40 \<and>
   maxLatency (metrics (observeProbe ''me'' (test_event PONG 2 ''peer'' ''0'') 1040
       (ping 2 test_host test_provider 1000 test_probe))) = 40 \<and>
   avgLatency (metrics (observeProbe ''me'' (test_event PONG 2 ''peer'' ''0'') 1040
       (ping 2 test_host test_provider 1000 test_probe))) = 40 \<and>
   map measurement_id (measurements (metrics (fold (ping 2 test_host test_provider)
       [2000, 3000] (ping 2 test_host test_provider 1000 test_probe)))) = [''1'', ''2'']"
proof -
  have used: "probe_ids_used test_probe"
    by (simp add: probe_ids_used_def test_probe_def initialMetrics_def)
  have ev: "kind (test_event PONG 2 ''peer'' ''0'') = PONG \<or>
            (kind (test_event PONG 2 ''peer'' ''0'') = PING \<and>
             pubkey (test_event PONG 2 ''peer'' ''0'') = ''me'')"
    by (simp add: test_event_simps)
  have cont: "content (test_event PONG 2 ''peer'' ''0'') = decimal_text (pingCounter test_probe)"
    by (simp add: test_event_simps test_probe_def decimal_text_digits)
  have cap: "0 < (2::nat)" and enough: "2 \<le> length [2000, 3000 :: int]" by simp_all
  show ?thesis
    using latency_probe [OF cap used ev cont enough, of test_host test_provider 1000 1040]
    by (simp add: Let_def observeProbe_def completeMeasurement_def ping_def keep_last_def
        test_event_simps test_probe_def initialMetrics_def decimal_text_digits latencies_def
        List.map_filter_simps minimum_def maximum_def average_def)
qed

end
